theory Spec2Isabelle
  imports Main "HOL-Library.FSet"
begin

section \<open>Strings\<close>

text \<open>
  Python strings are modelled as \<^typ>\<open>string\<close>. The URLs, paths and keywords the
  scripts handle are ASCII; the case mapping and the letter test below are the ASCII
  part of \<^verbatim>\<open>str.lower\<close> and of the character class \<^verbatim>\<open>[a-z]\<close> under
  \<^verbatim>\<open>re.IGNORECASE\<close>.
\<close>

definition is_upper :: "char \<Rightarrow> bool" where
  "is_upper c = (65 \<le> (of_char c :: nat) \<and> (of_char c :: nat) \<le> 90)"

definition is_lower :: "char \<Rightarrow> bool" where
  "is_lower c = (97 \<le> (of_char c :: nat) \<and> (of_char c :: nat) \<le> 122)"

definition is_alpha :: "char \<Rightarrow> bool" where
  "is_alpha c = (is_upper c \<or> is_lower c)"

definition is_digit :: "char \<Rightarrow> bool" where
  "is_digit c = (48 \<le> (of_char c :: nat) \<and> (of_char c :: nat) \<le> 57)"

definition lower_char :: "char \<Rightarrow> char" where
  "lower_char c = (if is_upper c then char_of ((of_char c :: nat) + 32) else c)"

definition lower :: "string \<Rightarrow> string" where
  "lower s = map lower_char s"

text \<open>\<^verbatim>\<open>s.startswith(p)\<close>.\<close>

definition startswith :: "string \<Rightarrow> string \<Rightarrow> bool" where
  "startswith s p = (take (length p) s = p)"

text \<open>\<^verbatim>\<open>kw in s\<close> on strings: \<open>kw\<close> occurs in \<open>s\<close> as a contiguous substring.\<close>

fun contains :: "string \<Rightarrow> string \<Rightarrow> bool" where
  "contains [] kw = (kw = [])"
| "contains (c # cs) kw = (startswith (c # cs) kw \<or> contains cs kw)"

text \<open>\<^verbatim>\<open>s.find(c)\<close> for a single character: the first index, or \<open>None\<close> for -1.\<close>

fun find_char :: "char \<Rightarrow> string \<Rightarrow> nat option" where
  "find_char c [] = None"
| "find_char c (x # xs) =
     (if x = c then Some 0 else map_option Suc (find_char c xs))"

text \<open>\<^verbatim>\<open>s.strip("/")\<close>: leading and trailing slashes removed.\<close>

definition strip_slashes :: "string \<Rightarrow> string" where
  "strip_slashes s =
     rev (dropWhile (\<lambda>c. c = CHR ''/'') (rev (dropWhile (\<lambda>c. c = CHR ''/'') s)))"

text \<open>
  \<^verbatim>\<open>s.split(sep)\<close> for a one-character separator: never an empty list, and
  adjacent separators give empty fields.
\<close>

fun split_where :: "(char \<Rightarrow> bool) \<Rightarrow> string \<Rightarrow> string list" where
  "split_where is_sep [] = [[]]"
| "split_where is_sep (c # cs) =
     (if is_sep c then [] # split_where is_sep cs
      else (case split_where is_sep cs of
              [] \<Rightarrow> [[c]]
            | w # ws \<Rightarrow> (c # w) # ws))"

definition split :: "char \<Rightarrow> string \<Rightarrow> string list" where
  "split sep s = split_where (\<lambda>c. c = sep) s"

text \<open>\<^verbatim>\<open>s.replace("/", "-")\<close>.\<close>

definition replace_slashes :: "string \<Rightarrow> string" where
  "replace_slashes s = map (\<lambda>c. if c = CHR ''/'' then CHR ''-'' else c) s"

text \<open>\<^verbatim>\<open>os.path.join(a, b)\<close> on POSIX, for two components.\<close>

definition path_join :: "string \<Rightarrow> string \<Rightarrow> string" where
  "path_join a b =
     (if startswith b ''/'' then b
      else if a = [] \<or> last a = CHR ''/'' then a @ b
      else a @ ''/'' @ b)"

section \<open>URL parsing (the standard library's urlparse)\<close>

text \<open>
  \<^verbatim>\<open>urllib.parse.urlparse\<close> belongs to the Python standard library, not to the
  scripts. The model follows its algorithm on the inputs where it does not raise (no
  unbalanced IPv6 brackets in the host) and that carry no control characters: an
  optional scheme up to the first colon, a network location after \<^verbatim>\<open>//\<close> up to the
  first of \<^verbatim>\<open>/ ? #\<close>, then fragment, query and parameters split off the path.
\<close>

record url_parts =
  scheme :: string
  netloc :: string
  path :: string

definition scheme_char :: "char \<Rightarrow> bool" where
  "scheme_char c = (is_alpha c \<or> is_digit c \<or> c \<in> set ''+-.'')"

text \<open>The scheme and the rest of the URL after it.\<close>

definition split_scheme :: "string \<Rightarrow> string \<times> string" where
  "split_scheme url =
     (case find_char CHR '':'' url of
        None \<Rightarrow> ([], url)
      | Some i \<Rightarrow>
          if 0 < i \<and> is_alpha (hd url) \<and> list_all scheme_char (take i url)
          then (lower (take i url), drop (Suc i) url)
          else ([], url))"

text \<open>\<^verbatim>\<open>_splitnetloc(url, 2)\<close>: the host part ends at the first of \<^verbatim>\<open>/ ? #\<close>.\<close>

definition split_netloc :: "string \<Rightarrow> string \<times> string" where
  "split_netloc url =
     (if startswith url ''//''
      then (takeWhile (\<lambda>c. c \<notin> set ''/?#'') (drop 2 url),
            dropWhile (\<lambda>c. c \<notin> set ''/?#'') (drop 2 url))
      else ([], url))"

definition uses_params :: "string list" where
  "uses_params = [[], ''ftp'', ''hdl'', ''prospero'', ''http'', ''imap'', ''https'',
     ''shttp'', ''rtsp'', ''rtsps'', ''rtspu'', ''sip'', ''sips'', ''mms'', ''sftp'',
     ''tel'']"

text \<open>
  \<^verbatim>\<open>_splitparams\<close>: the parameters start at the first semicolon of the last path
  segment.
\<close>

definition split_params :: "string \<Rightarrow> string" where
  "split_params p =
     (let last_seg = rev (takeWhile (\<lambda>c. c \<noteq> CHR ''/'') (rev p));
          dir = take (length p - length last_seg) p
      in dir @ takeWhile (\<lambda>c. c \<noteq> CHR '';'') last_seg)"

definition urlparse :: "string \<Rightarrow> url_parts" where
  "urlparse url =
     (let (sch, rest) = split_scheme url;
          (loc, rest1) = split_netloc rest;
          no_fragment = takeWhile (\<lambda>c. c \<noteq> CHR ''#'') rest1;
          no_query = takeWhile (\<lambda>c. c \<noteq> CHR ''?'') no_fragment;
          p = (if sch \<in> set uses_params then split_params no_query else no_query)
      in \<lparr>scheme = sch, netloc = loc, path = p\<rparr>)"

section \<open>The Apache crawler: configuration\<close>

text \<open>
  The module-level constants of \<^verbatim>\<open>apache_httpd_doc_crawler.py\<close>. The two regular
  expressions are fixed by the script and modelled as the predicates below; the other
  constants are fields, so that the link filter can be run under another domain and
  keyword list.
\<close>

record config =
  START_URL :: string
  DOMAIN :: string
  OUTPUT_DIR :: string
  CRAWL_LIMIT :: nat
  CREATE_SINGLE_PDF :: bool
  MERGED_PDF_NAME :: string
  EXCLUDE_KEYWORDS :: "string list"
  SELECTORS_TO_REMOVE :: "string list"

definition apache_config :: config where
  "apache_config =
     \<lparr>START_URL = ''https://httpd.apache.org/docs/current/'',
      DOMAIN = ''httpd.apache.org'',
      OUTPUT_DIR = ''apache_httpd_docs_pdf'',
      CRAWL_LIMIT = 200,
      CREATE_SINGLE_PDF = True,
      MERGED_PDF_NAME = ''Apache_HTTP_Server_24_Docs_Merged.pdf'',
      EXCLUDE_KEYWORDS = [''zh-cn'', ''ja'', ''ko'', ''fr'', ''ru'', ''pt-br'',
        ''faq'', ''glossary'', ''license'', ''sitemap''],
      SELECTORS_TO_REMOVE = [''header'', ''footer'', ''nav'', ''aside'',
        ''#page-header'', ''#footer'', ''.toplang'', ''.bottomlang'', ''.menu'',
        ''#comments_section'', ''#comments_thread'', ''script'', ''style'', ''form'']\<rparr>"

text \<open>
  \<^verbatim>\<open>DOC_PATH_REGEX.search(p)\<close> with the pattern \<^verbatim>\<open>^/docs/current/\<close> under
  \<^verbatim>\<open>re.IGNORECASE\<close>: the path starts with that prefix, in any letter case.
\<close>

definition DOC_PATH_REGEX_search :: "string \<Rightarrow> bool" where
  "DOC_PATH_REGEX_search p = startswith (lower p) ''/docs/current/''"

text \<open>
  \<^verbatim>\<open>LOCALE_CODE_REGEX.match(s)\<close> with the pattern
  \<^verbatim>\<open>^[a-z]{2}(\-[a-z]{2})?$\<close> under \<^verbatim>\<open>re.IGNORECASE\<close>: two letters, optionally
  followed by a hyphen and two letters. Python's \<^verbatim>\<open>$\<close> also matches just before a
  final newline.
\<close>

definition locale_shape :: "string \<Rightarrow> bool" where
  "locale_shape s =
     (case s of
        [a, b] \<Rightarrow> is_alpha a \<and> is_alpha b
      | [a, b, h, c, d] \<Rightarrow>
          is_alpha a \<and> is_alpha b \<and> h = CHR ''-'' \<and> is_alpha c \<and> is_alpha d
      | _ \<Rightarrow> False)"

definition LOCALE_CODE_REGEX_match :: "string \<Rightarrow> bool" where
  "LOCALE_CODE_REGEX_match s =
     (locale_shape s \<or> (s \<noteq> [] \<and> last s = CHR 0x0A \<and> locale_shape (butlast s)))"

section \<open>The link filter\<close>

text \<open>
  \<^verbatim>\<open>is_valid_link\<close> returns \<^verbatim>\<open>False\<close> at five places and \<^verbatim>\<open>True\<close> at the end.
  \<open>link_check\<close> is the function with each return labelled by the check that took it, in
  the order of the source; \<open>is_valid_link\<close> is its boolean result.
\<close>

datatype verdict =
  Accepted
  | Rejected_empty
  | Rejected_domain
  | Rejected_path
  | Rejected_keyword
  | Rejected_locale

definition link_check :: "config \<Rightarrow> string \<Rightarrow> verdict" where
  "link_check cfg href =
     (if href = [] then Rejected_empty
      else
        let parsed = urlparse href in
        if netloc parsed \<noteq> [] \<and> lower (netloc parsed) \<noteq> DOMAIN cfg
        then Rejected_domain
        else if \<not> DOC_PATH_REGEX_search (path parsed) then Rejected_path
        else if list_ex (contains (lower (path parsed))) (EXCLUDE_KEYWORDS cfg)
        then Rejected_keyword
        else
          let splitted = split CHR ''/'' (strip_slashes (path parsed)) in
          if 3 \<le> length splitted \<and> LOCALE_CODE_REGEX_match (splitted ! 2)
          then Rejected_locale
          else Accepted)"

definition is_valid_link :: "config \<Rightarrow> string \<Rightarrow> bool" where
  "is_valid_link cfg href = (link_check cfg href = Accepted)"

section \<open>Parsed pages\<close>

text \<open>
  The HTML parser is an external library; a parsed page (the \<^verbatim>\<open>soup\<close>) is modelled
  as the forest of its top-level nodes. Tag and attribute names are as the parser
  delivers them (lower case).
\<close>

datatype node =
  Element (tag: string) (attrs: "(string \<times> string) list") (children: "node list")
  | Text string

type_synonym soup = "node list"

text \<open>Every node of a tree, the root first, in document order.\<close>

primrec nodes_of :: "node \<Rightarrow> node list" where
  "nodes_of (Element t a cs) = Element t a cs # concat (map nodes_of cs)"
| "nodes_of (Text x) = [Text x]"

definition all_nodes :: "soup \<Rightarrow> node list" where
  "all_nodes sp = concat (map nodes_of sp)"

definition attr :: "node \<Rightarrow> string \<Rightarrow> string option" where
  "attr n k = (case n of Element t a cs \<Rightarrow> map_of a k | Text x \<Rightarrow> None)"

definition has_tag :: "string \<Rightarrow> node \<Rightarrow> bool" where
  "has_tag t n = (case n of Element t' a cs \<Rightarrow> t' = t | Text x \<Rightarrow> False)"

text \<open>The class attribute is a list of names separated by white space.\<close>

definition is_space :: "char \<Rightarrow> bool" where
  "is_space c = (c \<in> set [CHR '' '', CHR 0x09, CHR 0x0A, CHR 0x0C, CHR 0x0D])"

definition words :: "string \<Rightarrow> string list" where
  "words s = filter (\<lambda>w. w \<noteq> []) (split_where is_space s)"

text \<open>
  The selectors of \<^verbatim>\<open>SELECTORS_TO_REMOVE\<close> are simple: a tag name,
  \<^verbatim>\<open>#id\<close> or \<^verbatim>\<open>.class\<close>.
\<close>

definition matches :: "string \<Rightarrow> node \<Rightarrow> bool" where
  "matches sel n =
     (case n of
        Text x \<Rightarrow> False
      | Element t a cs \<Rightarrow>
          (case sel of
             [] \<Rightarrow> False
           | c # rest \<Rightarrow>
               if c = CHR ''#'' then map_of a ''id'' = Some rest
               else if c = CHR ''.''
               then (case map_of a ''class'' of
                       None \<Rightarrow> False
                     | Some v \<Rightarrow> rest \<in> set (words v))
               else t = sel))"

text \<open>
  \<^verbatim>\<open>for tag in soup.select(sel): tag.decompose()\<close>: every element the selector
  matches leaves the tree, with all below it.
\<close>

fun prune :: "string \<Rightarrow> node \<Rightarrow> node" where
  "prune sel (Element t a cs) =
     Element t a (map (prune sel) (filter (\<lambda>c. \<not> matches sel c) cs))"
| "prune sel (Text x) = Text x"

definition decompose_all :: "soup \<Rightarrow> string \<Rightarrow> soup" where
  "decompose_all sp sel = map (prune sel) (filter (\<lambda>c. \<not> matches sel c) sp)"

text \<open>\<^verbatim>\<open>soup.find(...)\<close>: the first node in document order that qualifies.\<close>

definition find_first :: "(node \<Rightarrow> bool) \<Rightarrow> soup \<Rightarrow> node option" where
  "find_first P sp = (case filter P (all_nodes sp) of [] \<Rightarrow> None | n # ns \<Rightarrow> Some n)"

text \<open>
  The cleaning part of \<^verbatim>\<open>fetch_and_cleanup_html\<close>, after the page is fetched and
  parsed. The result stands for the string \<^verbatim>\<open>str(...)\<close> serialises: one element, or
  the whole remaining soup, whose serialisation is empty exactly when no node is left.
\<close>

definition remove_clutter :: "config \<Rightarrow> soup \<Rightarrow> soup" where
  "remove_clutter cfg sp = foldl decompose_all sp (SELECTORS_TO_REMOVE cfg)"

definition is_page_content :: "node \<Rightarrow> bool" where
  "is_page_content n = (has_tag ''div'' n \<and> attr n ''id'' = Some ''page-content'')"

definition cleanup_html :: "config \<Rightarrow> soup \<Rightarrow> soup" where
  "cleanup_html cfg sp =
     (let sp' = remove_clutter cfg sp in
      case find_first is_page_content sp' of
        Some content_div \<Rightarrow> [content_div]
      | None \<Rightarrow>
          (case find_first (has_tag ''body'') sp' of
             Some body \<Rightarrow> [body]
           | None \<Rightarrow> sp'))"

section \<open>The outside world of the crawler\<close>

text \<open>
  Network, renderer and URL resolution are external. \<open>get_links\<close> is the request of
  the main loop and \<open>get_page\<close> the second request for the same URL inside
  \<^verbatim>\<open>fetch_and_cleanup_html\<close>; each gives the parsed response, or \<open>None\<close> when
  \<^verbatim>\<open>requests.get\<close> or \<^verbatim>\<open>raise_for_status\<close> raises. \<open>from_string\<close> is
  \<^verbatim>\<open>pdfkit.from_string\<close>: the pages of the PDF it writes, or \<open>None\<close> when it raises
  and writes nothing. \<open>urljoin\<close> is the standard library's.
\<close>

record world =
  get_links :: "string \<Rightarrow> soup option"
  get_page :: "string \<Rightarrow> soup option"
  urljoin :: "string \<Rightarrow> string \<Rightarrow> string"
  from_string :: "soup \<Rightarrow> string \<Rightarrow> string list option"

text \<open>A file is a PDF with its pages, or something the merger cannot read.\<close>

datatype disk_file = Pdf "string list" | Unreadable

type_synonym filesystem = "string \<rightharpoonup> disk_file"

text \<open>The lines the script prints.\<close>

datatype event =
  Crawl string
  | Fetch_error string
  | Get string
  | Convert_error string string
  | Pdfkit_error string
  | Merge_error string
  | Summary nat nat
  | Merging nat string
  | Merge_complete

text \<open>
  The module-level collections \<^verbatim>\<open>visited\<close>, \<^verbatim>\<open>to_visit\<close> and
  \<^verbatim>\<open>pdf_files\<close>, the local \<^verbatim>\<open>page_count\<close>, the files on disk and the output.
\<close>

record crawl_state =
  visited :: "string fset"
  to_visit :: "string list"
  pdf_files :: "string list"
  page_count :: nat
  files :: filesystem
  printed :: "event list"

definition say :: "event \<Rightarrow> crawl_state \<Rightarrow> crawl_state" where
  "say e s = s\<lparr>printed := printed s @ [e]\<rparr>"

datatype error = Request_failed

definition fetch_and_cleanup_html ::
  "config \<Rightarrow> world \<Rightarrow> string \<Rightarrow> crawl_state \<Rightarrow> (error + soup) \<times> crawl_state" where
  "fetch_and_cleanup_html cfg w url s =
     (case get_page w url of
        None \<Rightarrow> (Inl Request_failed, say (Get url) s)
      | Some sp \<Rightarrow> (Inr (cleanup_html cfg sp), say (Get url) s))"

definition html_to_pdf :: "world \<Rightarrow> soup \<Rightarrow> string \<Rightarrow> crawl_state \<Rightarrow> crawl_state" where
  "html_to_pdf w html_str pdf_path s =
     (case from_string w html_str pdf_path of
        Some pages \<Rightarrow> s\<lparr>files := (files s)(pdf_path \<mapsto> Pdf pages)\<rparr>
      | None \<Rightarrow> say (Pdfkit_error pdf_path) s)"

text \<open>
  \<^verbatim>\<open>merge_pdfs\<close>: the merger collects the pages of every input it can open; an
  input that is missing or unreadable is reported and skipped. The output is written
  whatever was collected.
\<close>

fun append_all :: "filesystem \<Rightarrow> string list \<Rightarrow> string list \<times> event list" where
  "append_all fs [] = ([], [])"
| "append_all fs (pdf_file # rest) =
     (let (pages, errs) = append_all fs rest in
      case fs pdf_file of
        Some (Pdf ps) \<Rightarrow> (ps @ pages, errs)
      | _ \<Rightarrow> (pages, Merge_error pdf_file # errs))"

definition merge_pdfs :: "string list \<Rightarrow> string \<Rightarrow> crawl_state \<Rightarrow> crawl_state" where
  "merge_pdfs pdf_list output_pdf s =
     (let (pages, errs) = append_all (files s) pdf_list in
      s\<lparr>files := (files s)(output_pdf \<mapsto> Pdf pages), printed := printed s @ errs\<rparr>)"

section \<open>The crawl loop\<close>

text \<open>The links of a page: \<^verbatim>\<open>soup.find_all("a", href=True)\<close>, each with its href.\<close>

definition hrefs :: "soup \<Rightarrow> string list" where
  "hrefs sp =
     List.map_filter (\<lambda>n. if has_tag ''a'' n then attr n ''href'' else None) (all_nodes sp)"

text \<open>
  The body of the loop over the links (the frontier's \<open>offer\<close>): the resolved link is
  appended to the worklist when it is not in the visited set and passes the filter.
\<close>

definition offer :: "config \<Rightarrow> world \<Rightarrow> string \<Rightarrow> crawl_state \<Rightarrow> string \<Rightarrow> crawl_state" where
  "offer cfg w url s href =
     (let link_url = urljoin w url href in
      if link_url |\<notin>| visited s \<and> is_valid_link cfg link_url
      then s\<lparr>to_visit := to_visit s @ [link_url]\<rparr>
      else s)"

text \<open>The name of a page's PDF, from the path of its URL.\<close>

definition pdf_fullpath :: "config \<Rightarrow> string \<Rightarrow> string" where
  "pdf_fullpath cfg url =
     (let path_part = strip_slashes (path (urlparse url));
          path_part = (if path_part = [] then ''index'' else path_part)
      in path_join (OUTPUT_DIR cfg) (replace_slashes path_part @ ''.pdf''))"

text \<open>
  Fetching, link extraction and conversion of a URL that was just marked visited (the
  loop body after \<^verbatim>\<open>visited.add(url)\<close>).
\<close>

definition process :: "config \<Rightarrow> world \<Rightarrow> string \<Rightarrow> crawl_state \<Rightarrow> crawl_state" where
  "process cfg w url s =
     (case get_links w url of
        None \<Rightarrow> say (Fetch_error url) s
      | Some sp \<Rightarrow>
          let s1 = foldl (offer cfg w url) s (hrefs sp) in
          (case fetch_and_cleanup_html cfg w url s1 of
             (Inl e, s2) \<Rightarrow> say (Convert_error url (pdf_fullpath cfg url)) s2
           | (Inr cleaned_html, s2) \<Rightarrow>
               let s3 = html_to_pdf w cleaned_html (pdf_fullpath cfg url) s2 in
               s3\<lparr>pdf_files := pdf_files s3 @ [pdf_fullpath cfg url],
                  page_count := page_count s3 + 1\<rparr>))"

text \<open>One iteration: pop the last URL of the worklist, skip it when visited.\<close>

definition crawl_body :: "config \<Rightarrow> world \<Rightarrow> crawl_state \<Rightarrow> crawl_state" where
  "crawl_body cfg w s =
     (let url = last (to_visit s);
          s1 = s\<lparr>to_visit := butlast (to_visit s)\<rparr>
      in if url |\<in>| visited s1 then s1
         else process cfg w url (say (Crawl url) (s1\<lparr>visited := finsert url (visited s1)\<rparr>)))"

definition crawl_cond :: "config \<Rightarrow> crawl_state \<Rightarrow> bool" where
  "crawl_cond cfg s = (to_visit s \<noteq> [] \<and> fcard (visited s) < CRAWL_LIMIT cfg)"

text \<open>The visited set changes at one place only: where the popped URL is added.\<close>

lemma visited_say [simp]: "visited (say e s) = visited s"
  and to_visit_say [simp]: "to_visit (say e s) = to_visit s"
  and pdf_files_say [simp]: "pdf_files (say e s) = pdf_files s"
  and page_count_say [simp]: "page_count (say e s) = page_count s"
  and files_say [simp]: "files (say e s) = files s"
  and printed_say [simp]: "printed (say e s) = printed s @ [e]"
  by (simp_all add: say_def)

lemma visited_offer [simp]: "visited (offer cfg w url s href) = visited s"
  by (simp add: offer_def Let_def)

lemma visited_offers [simp]: "visited (foldl (offer cfg w url) s hs) = visited s"
  by (induction hs arbitrary: s) simp_all

lemma visited_html_to_pdf [simp]: "visited (html_to_pdf w h p s) = visited s"
  by (simp add: html_to_pdf_def split: option.splits)

lemma visited_process [simp]: "visited (process cfg w url s) = visited s"
  by (simp add: process_def fetch_and_cleanup_html_def Let_def split: option.splits)

lemma crawl_body_visited:
  "visited (crawl_body cfg w s) =
     (if last (to_visit s) |\<in>| visited s then visited s
      else finsert (last (to_visit s)) (visited s))"
  by (simp add: crawl_body_def Let_def)

lemma crawl_body_skip:
  "last (to_visit s) |\<in>| visited s \<Longrightarrow> to_visit (crawl_body cfg w s) = butlast (to_visit s)"
  by (simp add: crawl_body_def Let_def)

text \<open>
  \<^verbatim>\<open>while to_visit and len(visited) < CRAWL_LIMIT\<close>. Every iteration either adds
  a URL to the visited set, which the limit bounds, or leaves the set alone and shortens
  the worklist: the loop is total.
\<close>

function crawl_loop :: "config \<Rightarrow> world \<Rightarrow> crawl_state \<Rightarrow> crawl_state" where
  "crawl_loop cfg w s =
     (if crawl_cond cfg s then crawl_loop cfg w (crawl_body cfg w s) else s)"
  by pat_completeness auto
termination
proof (relation "measures [\<lambda>(cfg, w, s). CRAWL_LIMIT cfg - fcard (visited s),
                           \<lambda>(cfg, w, s). length (to_visit s)]")
  show "wf (measures [\<lambda>(cfg, w, s). CRAWL_LIMIT cfg - fcard (visited s),
                           \<lambda>(cfg, w, s). length (to_visit s)])"
    by simp
next
  fix cfg :: config and w :: world and s :: crawl_state
  assume c: "crawl_cond cfg s"
  show "((cfg, w, crawl_body cfg w s), (cfg, w, s))
          \<in> measures [\<lambda>(cfg, w, s). CRAWL_LIMIT cfg - fcard (visited s),
                           \<lambda>(cfg, w, s). length (to_visit s)]"
  proof (cases "last (to_visit s) |\<in>| visited s")
    case True
    with c show ?thesis
      by (simp add: crawl_body_visited crawl_body_skip crawl_cond_def)
  next
    case False
    with c show ?thesis
      by (auto simp add: crawl_body_visited crawl_cond_def fcard_finsert_if)
  qed
qed

text \<open>The defining equation unfolds for ever; it is used where the condition is known.\<close>

declare crawl_loop.simps [simp del]

lemma crawl_loop_continue:
  "crawl_cond cfg s \<Longrightarrow> crawl_loop cfg w s = crawl_loop cfg w (crawl_body cfg w s)"
  by (subst crawl_loop.simps) simp

lemma crawl_loop_stop: "\<not> crawl_cond cfg s \<Longrightarrow> crawl_loop cfg w s = s"
  by (subst crawl_loop.simps) simp

text \<open>
  \<^verbatim>\<open>main\<close>, from the state the module sets up: nothing visited, the start URL on
  the worklist, and the files already on disk (\<^verbatim>\<open>os.makedirs(..., exist_ok=True)\<close>
  keeps what the output directory holds).
\<close>

definition initial :: "config \<Rightarrow> filesystem \<Rightarrow> crawl_state" where
  "initial cfg fs =
     \<lparr>visited = {||}, to_visit = [START_URL cfg], pdf_files = [], page_count = 0,
      files = fs, printed = []\<rparr>"

definition merged_pdf_path :: "config \<Rightarrow> string" where
  "merged_pdf_path cfg = path_join (OUTPUT_DIR cfg) (MERGED_PDF_NAME cfg)"

definition finish :: "config \<Rightarrow> crawl_state \<Rightarrow> crawl_state" where
  "finish cfg s =
     (let s1 = say (Summary (fcard (visited s)) (page_count s)) s in
      if CREATE_SINGLE_PDF cfg \<and> pdf_files s1 \<noteq> []
      then say Merge_complete
             (merge_pdfs (pdf_files s1) (merged_pdf_path cfg)
                (say (Merging (length (pdf_files s1)) (merged_pdf_path cfg)) s1))
      else s1)"

definition main :: "config \<Rightarrow> world \<Rightarrow> filesystem \<Rightarrow> crawl_state" where
  "main cfg w fs = finish cfg (crawl_loop cfg w (initial cfg fs))"

text \<open>The URLs the loop took up for processing, in order: the \<^verbatim>\<open>[Crawl]\<close> lines.\<close>

definition crawled :: "crawl_state \<Rightarrow> string list" where
  "crawled s = List.map_filter (\<lambda>e. case e of Crawl u \<Rightarrow> Some u | _ \<Rightarrow> None) (printed s)"

section \<open>Properties of the link filter\<close>

text \<open>
  The filter of the example: the domain \<^verbatim>\<open>example.org\<close>, the keyword list
  \<^verbatim>\<open>["faq"]\<close>, and the script's own path pattern \<^verbatim>\<open>^/docs/current/\<close>.
\<close>

definition example_filter :: config where
  "example_filter = apache_config\<lparr>DOMAIN := ''example.org'', EXCLUDE_KEYWORDS := [''faq'']\<rparr>"

text \<open>Which links each check rejects: those that pass the checks before it and fail it.\<close>

lemma link_check_domain:
  "(link_check cfg href = Rejected_domain) =
     (href \<noteq> [] \<and> netloc (urlparse href) \<noteq> [] \<and> lower (netloc (urlparse href)) \<noteq> DOMAIN cfg)"
  by (simp add: link_check_def Let_def)

lemma link_check_path:
  "(link_check cfg href = Rejected_path) =
     (href \<noteq> [] \<and> (netloc (urlparse href) = [] \<or> lower (netloc (urlparse href)) = DOMAIN cfg)
      \<and> \<not> DOC_PATH_REGEX_search (path (urlparse href)))"
  by (auto simp add: link_check_def Let_def)

lemma link_check_keyword:
  "(link_check cfg href = Rejected_keyword) =
     (href \<noteq> [] \<and> (netloc (urlparse href) = [] \<or> lower (netloc (urlparse href)) = DOMAIN cfg)
      \<and> DOC_PATH_REGEX_search (path (urlparse href))
      \<and> list_ex (contains (lower (path (urlparse href)))) (EXCLUDE_KEYWORDS cfg))"
  by (auto simp add: link_check_def Let_def)

lemma link_check_locale:
  "(link_check cfg href = Rejected_locale) =
     (href \<noteq> [] \<and> (netloc (urlparse href) = [] \<or> lower (netloc (urlparse href)) = DOMAIN cfg)
      \<and> DOC_PATH_REGEX_search (path (urlparse href))
      \<and> \<not> list_ex (contains (lower (path (urlparse href)))) (EXCLUDE_KEYWORDS cfg)
      \<and> 3 \<le> length (split CHR ''/'' (strip_slashes (path (urlparse href))))
      \<and> LOCALE_CODE_REGEX_match (split CHR ''/'' (strip_slashes (path (urlparse href))) ! 2))"
  by (auto simp add: link_check_def Let_def)

lemma example_faq:
  "link_check example_filter ''https://example.org/docs/current/faq.html'' = Rejected_keyword"
  by code_simp

lemma example_core:
  "link_check example_filter ''https://example.org/docs/current/mod/core.html'' = Accepted"
  by code_simp

lemma example_other:
  "link_check example_filter ''https://other.org/docs/current/x.html'' = Rejected_domain"
  by code_simp

lemma example_tr:
  "link_check example_filter ''https://example.org/docs/current/tr/x.html'' = Rejected_locale"
  by code_simp

text \<open>
  \<^bold>\<open>C3.\<close> Under the example filter the FAQ page is rejected by the keyword check,
  \<^verbatim>\<open>mod/core.html\<close> is accepted, the page of the foreign host is rejected by the
  domain check, and \<^verbatim>\<open>tr/x.html\<close> is rejected by the locale check on its third path
  segment. For every configuration and link the checks apply in the order domain, path
  prefix, keyword, locale: a check decides exactly the links that pass all checks
  before it and fail it, and a link is valid exactly when none rejects it.
\<close>

theorem link_filter_correct:
  "link_check example_filter ''https://example.org/docs/current/faq.html'' = Rejected_keyword
   \<and> \<not> is_valid_link example_filter ''https://example.org/docs/current/faq.html''
   \<and> link_check example_filter ''https://example.org/docs/current/mod/core.html'' = Accepted
   \<and> is_valid_link example_filter ''https://example.org/docs/current/mod/core.html''
   \<and> link_check example_filter ''https://other.org/docs/current/x.html'' = Rejected_domain
   \<and> \<not> is_valid_link example_filter ''https://other.org/docs/current/x.html''
   \<and> link_check example_filter ''https://example.org/docs/current/tr/x.html'' = Rejected_locale
   \<and> \<not> is_valid_link example_filter ''https://example.org/docs/current/tr/x.html''
   \<and> (\<forall>cfg href.
        (link_check cfg href = Rejected_domain) =
          (href \<noteq> [] \<and> netloc (urlparse href) \<noteq> []
           \<and> lower (netloc (urlparse href)) \<noteq> DOMAIN cfg))
   \<and> (\<forall>cfg href.
        (link_check cfg href = Rejected_path) =
          (href \<noteq> []
           \<and> (netloc (urlparse href) = [] \<or> lower (netloc (urlparse href)) = DOMAIN cfg)
           \<and> \<not> DOC_PATH_REGEX_search (path (urlparse href))))
   \<and> (\<forall>cfg href.
        (link_check cfg href = Rejected_keyword) =
          (href \<noteq> []
           \<and> (netloc (urlparse href) = [] \<or> lower (netloc (urlparse href)) = DOMAIN cfg)
           \<and> DOC_PATH_REGEX_search (path (urlparse href))
           \<and> list_ex (contains (lower (path (urlparse href)))) (EXCLUDE_KEYWORDS cfg)))
   \<and> (\<forall>cfg href.
        (link_check cfg href = Rejected_locale) =
          (href \<noteq> []
           \<and> (netloc (urlparse href) = [] \<or> lower (netloc (urlparse href)) = DOMAIN cfg)
           \<and> DOC_PATH_REGEX_search (path (urlparse href))
           \<and> \<not> list_ex (contains (lower (path (urlparse href)))) (EXCLUDE_KEYWORDS cfg)
           \<and> 3 \<le> length (split CHR ''/'' (strip_slashes (path (urlparse href))))
           \<and> LOCALE_CODE_REGEX_match
                (split CHR ''/'' (strip_slashes (path (urlparse href))) ! 2)))
   \<and> (\<forall>cfg href. is_valid_link cfg href = (link_check cfg href = Accepted))"
proof (intro conjI allI)
  show "link_check example_filter ''https://example.org/docs/current/faq.html'' = Rejected_keyword"
    by (rule example_faq)
  show "\<not> is_valid_link example_filter ''https://example.org/docs/current/faq.html''"
    unfolding is_valid_link_def example_faq by simp
  show "link_check example_filter ''https://example.org/docs/current/mod/core.html'' = Accepted"
    by (rule example_core)
  show "is_valid_link example_filter ''https://example.org/docs/current/mod/core.html''"
    unfolding is_valid_link_def by (rule example_core)
  show "link_check example_filter ''https://other.org/docs/current/x.html'' = Rejected_domain"
    by (rule example_other)
  show "\<not> is_valid_link example_filter ''https://other.org/docs/current/x.html''"
    unfolding is_valid_link_def example_other by simp
  show "link_check example_filter ''https://example.org/docs/current/tr/x.html'' = Rejected_locale"
    by (rule example_tr)
  show "\<not> is_valid_link example_filter ''https://example.org/docs/current/tr/x.html''"
    unfolding is_valid_link_def example_tr by simp
qed (rule link_check_domain link_check_path link_check_keyword link_check_locale
      is_valid_link_def)+

text \<open>
  The order at work: a link of a foreign host whose path also misses the prefix, holds
  the keyword and has a locale code as third segment is rejected by the domain check.
\<close>

theorem link_filter_correct_witness:
  "link_check example_filter ''https://other.org/elsewhere/faq/tr'' = Rejected_domain"
proof -
  have order: "\<forall>cfg href.
        (link_check cfg href = Rejected_domain) =
          (href \<noteq> [] \<and> netloc (urlparse href) \<noteq> []
           \<and> lower (netloc (urlparse href)) \<noteq> DOMAIN cfg)"
    using link_filter_correct by (elim conjE)
  have w: "''https://other.org/elsewhere/faq/tr'' \<noteq> []
       \<and> netloc (urlparse ''https://other.org/elsewhere/faq/tr'') \<noteq> []
       \<and> lower (netloc (urlparse ''https://other.org/elsewhere/faq/tr''))
           \<noteq> DOMAIN example_filter"
    by code_simp
  show ?thesis
    by (rule iffD2 [OF order [rule_format] w])
qed

section \<open>The frontier: what the loop keeps\<close>

text \<open>The URLs fetched a second time, for cleaning: the \<^verbatim>\<open>-> GET\<close> lines.\<close>

definition fetched :: "crawl_state \<Rightarrow> string list" where
  "fetched s = List.map_filter (\<lambda>e. case e of Get u \<Rightarrow> Some u | _ \<Rightarrow> None) (printed s)"

text \<open>
  A site of two pages that link to each other: the start page \<open>page_X\<close> links to
  \<open>page_Y\<close>, which links back. Every request succeeds and every page renders.
\<close>

definition page_X :: string where
  "page_X = ''https://httpd.apache.org/docs/current/''"

definition page_Y :: string where
  "page_Y = ''https://httpd.apache.org/docs/current/mod/core.html''"

definition link_to :: "string \<Rightarrow> node" where
  "link_to u = Element ''a'' [(''href'', u)] [Text ''link'']"

definition page_with_links :: "string list \<Rightarrow> soup" where
  "page_with_links us = [Element ''html'' [] [Element ''body'' [] (map link_to us)]]"

definition cyclic_site :: "string \<Rightarrow> soup option" where
  "cyclic_site u =
     (if u = page_X then Some (page_with_links [page_Y])
      else if u = page_Y then Some (page_with_links [page_X])
      else None)"

definition cyclic_world :: world where
  "cyclic_world =
     \<lparr>get_links = cyclic_site, get_page = cyclic_site,
      urljoin = (\<lambda>base href. href),
      from_string = (\<lambda>html_str pdf_path. Some [pdf_path])\<rparr>"

text \<open>How each operation extends the two lists.\<close>

lemma crawled_say: "crawled (say e s) = crawled s @ (case e of Crawl u \<Rightarrow> [u] | _ \<Rightarrow> [])"
  by (simp add: crawled_def say_def List.map_filter_def split: event.splits)

lemma fetched_say: "fetched (say e s) = fetched s @ (case e of Get u \<Rightarrow> [u] | _ \<Rightarrow> [])"
  by (simp add: fetched_def say_def List.map_filter_def split: event.splits)

lemma printed_offer [simp]: "printed (offer cfg w url s href) = printed s"
  by (simp add: offer_def Let_def)

lemma printed_offers [simp]: "printed (foldl (offer cfg w url) s hs) = printed s"
  by (induction hs arbitrary: s) simp_all

lemma crawled_offers [simp]: "crawled (foldl (offer cfg w url) s hs) = crawled s"
  by (simp add: crawled_def)

lemma fetched_offers [simp]: "fetched (foldl (offer cfg w url) s hs) = fetched s"
  by (simp add: fetched_def)

lemma crawled_update [simp]:
  "crawled (s\<lparr>pdf_files := a\<rparr>) = crawled s"
  "crawled (s\<lparr>page_count := b\<rparr>) = crawled s"
  "crawled (s\<lparr>files := c\<rparr>) = crawled s"
  "crawled (s\<lparr>to_visit := d\<rparr>) = crawled s"
  "crawled (s\<lparr>visited := e\<rparr>) = crawled s"
  by (simp_all add: crawled_def)

lemma fetched_update [simp]:
  "fetched (s\<lparr>pdf_files := a\<rparr>) = fetched s"
  "fetched (s\<lparr>page_count := b\<rparr>) = fetched s"
  "fetched (s\<lparr>files := c\<rparr>) = fetched s"
  "fetched (s\<lparr>to_visit := d\<rparr>) = fetched s"
  "fetched (s\<lparr>visited := e\<rparr>) = fetched s"
  by (simp_all add: fetched_def)

lemma crawled_html_to_pdf [simp]: "crawled (html_to_pdf w h p s) = crawled s"
  by (simp add: html_to_pdf_def crawled_say split: option.splits)

lemma fetched_html_to_pdf [simp]: "fetched (html_to_pdf w h p s) = fetched s"
  by (simp add: html_to_pdf_def fetched_say split: option.splits)

lemma crawled_process [simp]: "crawled (process cfg w url s) = crawled s"
  by (simp add: process_def fetch_and_cleanup_html_def Let_def crawled_say split: option.splits)

lemma fetched_process:
  "fetched (process cfg w url s) = fetched s @ (if get_links w url = None then [] else [url])"
  by (simp add: process_def fetch_and_cleanup_html_def Let_def fetched_say split: option.splits)

lemma crawled_body:
  "crawled (crawl_body cfg w s) =
     (if last (to_visit s) |\<in>| visited s then crawled s else crawled s @ [last (to_visit s)])"
  by (simp add: crawl_body_def Let_def crawled_say)

lemma fetched_body:
  "fetched (crawl_body cfg w s) =
     (if last (to_visit s) |\<in>| visited s \<or> get_links w (last (to_visit s)) = None
      then fetched s else fetched s @ [last (to_visit s)])"
  by (simp add: crawl_body_def Let_def fetched_process fetched_say)

text \<open>A property that every iteration keeps holds when the loop ends.\<close>

lemma crawl_loop_invariant:
  assumes "P s" and "\<And>t. P t \<Longrightarrow> crawl_cond cfg t \<Longrightarrow> P (crawl_body cfg w t)"
  shows "P (crawl_loop cfg w s)"
  using assms
proof (induction cfg w s rule: crawl_loop.induct)
  case (1 cfg w s)
  show ?case
  proof (cases "crawl_cond cfg s")
    case True
    have "P (crawl_body cfg w s)"
      using "1.prems" True by blast
    then have "P (crawl_loop cfg w (crawl_body cfg w s))"
      using "1.IH" [OF True] "1.prems"(2) by blast
    with True show ?thesis by (simp add: crawl_loop_continue)
  next
    case False
    with "1.prems"(1) show ?thesis by (simp add: crawl_loop_stop)
  qed
qed



text \<open>
  The invariant of the frontier: no URL was taken up twice, every URL taken up is in the
  visited set, and the second request went to exactly the URLs whose first request
  succeeded.
\<close>

definition frontier_ok :: "world \<Rightarrow> crawl_state \<Rightarrow> bool" where
  "frontier_ok w s =
     (distinct (crawled s) \<and> set (crawled s) \<subseteq> fset (visited s)
      \<and> fetched s = filter (\<lambda>u. get_links w u \<noteq> None) (crawled s))"

lemma frontier_ok_body: "frontier_ok w s \<Longrightarrow> frontier_ok w (crawl_body cfg w s)"
  by (auto simp add: frontier_ok_def crawled_body fetched_body crawl_body_visited)

lemma frontier_ok_loop: "frontier_ok w s \<Longrightarrow> frontier_ok w (crawl_loop cfg w s)"
  by (rule crawl_loop_invariant [where P = "frontier_ok w"]) (simp_all add: frontier_ok_body)

lemma frontier_ok_initial: "frontier_ok w (initial cfg fs)"
  by (simp add: frontier_ok_def initial_def crawled_def fetched_def List.map_filter_def)

text \<open>What the merger reads from a path: the pages of a PDF, nothing otherwise.\<close>

definition pages_at :: "filesystem \<Rightarrow> string \<Rightarrow> string list" where
  "pages_at fs p = (case fs p of Some (Pdf ps) \<Rightarrow> ps | _ \<Rightarrow> [])"

definition appendable :: "filesystem \<Rightarrow> string \<Rightarrow> bool" where
  "appendable fs p = (case fs p of Some (Pdf ps) \<Rightarrow> True | _ \<Rightarrow> False)"

lemma appendable_simps [simp]:
  "fs p = None \<Longrightarrow> \<not> appendable fs p"
  "fs p = Some (Pdf ps) \<Longrightarrow> appendable fs p"
  "fs p = Some Unreadable \<Longrightarrow> \<not> appendable fs p"
  by (simp_all add: appendable_def)

lemma pages_at_simps [simp]:
  "fs p = None \<Longrightarrow> pages_at fs p = []"
  "fs p = Some (Pdf ps) \<Longrightarrow> pages_at fs p = ps"
  "fs p = Some Unreadable \<Longrightarrow> pages_at fs p = []"
  by (simp_all add: pages_at_def)

lemma append_all_eq:
  "append_all fs l =
     (concat (map (pages_at fs) l), map Merge_error (filter (\<lambda>p. \<not> appendable fs p) l))"
proof (induction l)
  case Nil
  show ?case by simp
next
  case (Cons a l)
  show ?case
  proof (cases "fs a")
    case None
    with Cons show ?thesis by simp
  next
    case (Some f)
    with Cons show ?thesis by (cases f) simp_all
  qed
qed

lemma printed_merge_pdfs:
  "printed (merge_pdfs l out s) =
     printed s @ map Merge_error (filter (\<lambda>p. \<not> appendable (files s) p) l)"
  by (simp add: merge_pdfs_def append_all_eq)

lemma files_merge_pdfs:
  "files (merge_pdfs l out s) = (files s)(out \<mapsto> Pdf (concat (map (pages_at (files s)) l)))"
  by (simp add: merge_pdfs_def append_all_eq)

lemma crawled_merge_pdfs [simp]: "crawled (merge_pdfs l out s) = crawled s"
  by (simp add: crawled_def printed_merge_pdfs List.map_filter_def filter_map o_def)

lemma fetched_merge_pdfs [simp]: "fetched (merge_pdfs l out s) = fetched s"
  by (simp add: fetched_def printed_merge_pdfs List.map_filter_def filter_map o_def)

lemma visited_merge_pdfs [simp]: "visited (merge_pdfs l out s) = visited s"
  by (simp add: merge_pdfs_def split: prod.splits)

lemma crawled_finish [simp]: "crawled (finish cfg s) = crawled s"
  by (simp add: finish_def Let_def crawled_say)

lemma fetched_finish [simp]: "fetched (finish cfg s) = fetched s"
  by (simp add: finish_def Let_def fetched_say)

lemma visited_finish [simp]: "visited (finish cfg s) = visited s"
  by (simp add: finish_def Let_def)

section \<open>The MariaDB crawler (mariadb\_pdf.py)\<close>

text \<open>
  The second crawler has the same frontier. Its link filter checks the domain, in exact
  letter case, and the path pattern \<^verbatim>\<open>^/docs/server/.*\<close> only; its conversion raises
  when the renderer fails, so that only rendered pages reach the manifest. It uses the
  constants \<^verbatim>\<open>START_URL\<close>, \<^verbatim>\<open>DOMAIN\<close>, \<^verbatim>\<open>OUTPUT_DIR\<close> and \<^verbatim>\<open>CRAWL_LIMIT\<close>.
\<close>

definition mariadb_config :: config where
  "mariadb_config =
     \<lparr>START_URL = ''https://mariadb.com/docs/server/'',
      DOMAIN = ''mariadb.com'',
      OUTPUT_DIR = ''mariadb_docs_pdf'',
      CRAWL_LIMIT = 200,
      CREATE_SINGLE_PDF = False,
      MERGED_PDF_NAME = ''MariaDB_Server_Docs_Merged.pdf'',
      EXCLUDE_KEYWORDS = [],
      SELECTORS_TO_REMOVE = [''.Left-Nav'', ''.Right-Nav'', ''footer'', ''.modal-overlay'',
        ''.Controls'', ''script'', ''style'']\<rparr>"

definition mariadb_is_valid_link :: "config \<Rightarrow> string \<Rightarrow> bool" where
  "mariadb_is_valid_link cfg href =
     (if href = [] then False
      else
        let parsed = urlparse href in
        if netloc parsed \<noteq> [] \<and> netloc parsed \<noteq> DOMAIN cfg then False
        else if \<not> startswith (lower (path parsed)) ''/docs/server/'' then False
        else True)"

text \<open>
  The cleaning of the second crawler: the clutter is removed, then the first
  \<^verbatim>\<open>div\<close> of class \<^verbatim>\<open>Document\<close> is taken, or else the whole remaining page.
\<close>

definition mariadb_cleanup_html :: "config \<Rightarrow> soup \<Rightarrow> soup" where
  "mariadb_cleanup_html cfg sp =
     (let sp' = remove_clutter cfg sp in
      case find_first (\<lambda>n. has_tag ''div'' n \<and> matches ''.Document'' n) sp' of
        Some body_content \<Rightarrow> [body_content]
      | None \<Rightarrow> sp')"

definition mariadb_offer ::
  "config \<Rightarrow> world \<Rightarrow> string \<Rightarrow> crawl_state \<Rightarrow> string \<Rightarrow> crawl_state" where
  "mariadb_offer cfg w url s href =
     (let link_url = urljoin w url href in
      if mariadb_is_valid_link cfg link_url \<and> link_url |\<notin>| visited s
      then s\<lparr>to_visit := to_visit s @ [link_url]\<rparr>
      else s)"

definition mariadb_process :: "config \<Rightarrow> world \<Rightarrow> string \<Rightarrow> crawl_state \<Rightarrow> crawl_state" where
  "mariadb_process cfg w url s =
     (case get_links w url of
        None \<Rightarrow> say (Fetch_error url) s
      | Some sp \<Rightarrow>
          let s1 = say (Get url) (foldl (mariadb_offer cfg w url) s (hrefs sp)) in
          (case get_page w url of
             None \<Rightarrow> say (Convert_error url (pdf_fullpath cfg url)) s1
           | Some page \<Rightarrow>
               (case from_string w (mariadb_cleanup_html cfg page) (pdf_fullpath cfg url) of
                  None \<Rightarrow> say (Convert_error url (pdf_fullpath cfg url)) s1
                | Some pages \<Rightarrow>
                    s1\<lparr>files := (files s1)(pdf_fullpath cfg url \<mapsto> Pdf pages),
                       pdf_files := pdf_files s1 @ [pdf_fullpath cfg url]\<rparr>)))"

definition mariadb_body :: "config \<Rightarrow> world \<Rightarrow> crawl_state \<Rightarrow> crawl_state" where
  "mariadb_body cfg w s =
     (let url = last (to_visit s);
          s1 = s\<lparr>to_visit := butlast (to_visit s)\<rparr>
      in if url |\<in>| visited s1 then s1
         else mariadb_process cfg w url
                (say (Crawl url) (s1\<lparr>visited := finsert url (visited s1)\<rparr>)))"

text \<open>The visited set and the \<^verbatim>\<open>[Crawl]\<close> lines of the second crawler.\<close>

lemma visited_mariadb_offers [simp]:
  "visited (foldl (mariadb_offer cfg w url) s hs) = visited s"
  by (induction hs arbitrary: s) (simp_all add: mariadb_offer_def Let_def)

lemma visited_mariadb_process [simp]: "visited (mariadb_process cfg w url s) = visited s"
  by (simp add: mariadb_process_def Let_def split: option.splits)

lemma mariadb_body_visited:
  "visited (mariadb_body cfg w s) =
     (if last (to_visit s) |\<in>| visited s then visited s
      else finsert (last (to_visit s)) (visited s))"
  by (simp add: mariadb_body_def Let_def)

lemma mariadb_body_skip:
  "last (to_visit s) |\<in>| visited s \<Longrightarrow>
   to_visit (mariadb_body cfg w s) = butlast (to_visit s)"
  by (simp add: mariadb_body_def Let_def)

text \<open>The loop has the condition of the first crawler and ends for the same reason.\<close>

function mariadb_loop :: "config \<Rightarrow> world \<Rightarrow> crawl_state \<Rightarrow> crawl_state" where
  "mariadb_loop cfg w s =
     (if crawl_cond cfg s then mariadb_loop cfg w (mariadb_body cfg w s) else s)"
  by pat_completeness auto
termination
proof (relation "measures [\<lambda>(cfg, w, s). CRAWL_LIMIT cfg - fcard (visited s),
                           \<lambda>(cfg, w, s). length (to_visit s)]")
  show "wf (measures [\<lambda>(cfg, w, s). CRAWL_LIMIT cfg - fcard (visited s),
                      \<lambda>(cfg, w, s). length (to_visit s)])"
    by simp
next
  fix cfg :: config and w :: world and s :: crawl_state
  assume c: "crawl_cond cfg s"
  show "((cfg, w, mariadb_body cfg w s), (cfg, w, s))
          \<in> measures [\<lambda>(cfg, w, s). CRAWL_LIMIT cfg - fcard (visited s),
                      \<lambda>(cfg, w, s). length (to_visit s)]"
  proof (cases "last (to_visit s) |\<in>| visited s")
    case True
    with c show ?thesis
      by (simp add: mariadb_body_visited mariadb_body_skip crawl_cond_def)
  next
    case False
    with c show ?thesis
      by (auto simp add: mariadb_body_visited crawl_cond_def fcard_finsert_if)
  qed
qed

declare mariadb_loop.simps [simp del]

lemma mariadb_loop_invariant:
  assumes "P s" and "\<And>t. P t \<Longrightarrow> crawl_cond cfg t \<Longrightarrow> P (mariadb_body cfg w t)"
  shows "P (mariadb_loop cfg w s)"
  using assms
proof (induction cfg w s rule: mariadb_loop.induct)
  case (1 cfg w s)
  show ?case
  proof (cases "crawl_cond cfg s")
    case True
    have "P (mariadb_body cfg w s)"
      using "1.prems" True by blast
    then have "P (mariadb_loop cfg w (mariadb_body cfg w s))"
      using "1.IH" [OF True] "1.prems"(2) by blast
    with True show ?thesis by (subst mariadb_loop.simps) simp
  next
    case False
    with "1.prems"(1) show ?thesis by (subst mariadb_loop.simps) simp
  qed
qed

lemma crawled_mariadb_offers [simp]:
  "crawled (foldl (mariadb_offer cfg w url) s hs) = crawled s"
proof -
  have "printed (foldl (mariadb_offer cfg w url) s hs) = printed s"
    by (induction hs arbitrary: s) (simp_all add: mariadb_offer_def Let_def)
  then show ?thesis by (simp add: crawled_def)
qed

lemma crawled_mariadb_process [simp]: "crawled (mariadb_process cfg w url s) = crawled s"
  by (simp add: mariadb_process_def Let_def crawled_say split: option.splits)

lemma crawled_mariadb_body:
  "crawled (mariadb_body cfg w s) =
     (if last (to_visit s) |\<in>| visited s then crawled s else crawled s @ [last (to_visit s)])"
  by (simp add: mariadb_body_def Let_def crawled_say)

lemma to_visit_mariadb_offer:
  "to_visit (mariadb_offer cfg w url s href) =
     (if urljoin w url href |\<notin>| visited s \<and> mariadb_is_valid_link cfg (urljoin w url href)
      then to_visit s @ [urljoin w url href] else to_visit s)"
  by (simp add: mariadb_offer_def Let_def)

lemma mariadb_frontier:
  assumes "distinct (crawled s)" and "set (crawled s) \<subseteq> fset (visited s)"
  shows "distinct (crawled (mariadb_loop cfg w s))
     \<and> set (crawled (mariadb_loop cfg w s)) \<subseteq> fset (visited (mariadb_loop cfg w s))"
proof -
  define P where "P t = (distinct (crawled t) \<and> set (crawled t) \<subseteq> fset (visited t))" for t
  have "P (mariadb_loop cfg w s)"
  proof (rule mariadb_loop_invariant)
    show "P s" using assms by (simp add: P_def)
  next
    fix t
    assume "P t"
    then show "P (mariadb_body cfg w t)"
      by (auto simp add: P_def crawled_mariadb_body mariadb_body_visited)
  qed
  then show ?thesis by (simp add: P_def)
qed

section \<open>The frontier: each URL once, and the loop ends\<close>

text \<open>
  Two states for trying the frontier: a worklist on which the same URLs were offered
  several times, and a worklist whose only URL is already visited.
\<close>

definition duplicate_offers :: crawl_state where
  "duplicate_offers =
     (initial apache_config Map.empty)\<lparr>to_visit := [page_Y, page_X, page_Y, page_X]\<rparr>"

definition seen_again :: crawl_state where
  "seen_again = (initial apache_config Map.empty)\<lparr>visited := {|page_X|}\<rparr>"

text \<open>
  \<^bold>\<open>C1.\<close> In every run, whatever the network and the renderer do, no URL is taken up
  for processing twice (the \<^verbatim>\<open>[Crawl]\<close> lines, each printed right before the first
  request for the URL, are pairwise distinct), every URL taken up is in the visited set,
  and the second request for cleaning goes to distinct URLs among them. The same holds
  from any worklist, whatever was offered and how often. A popped URL that is already
  visited is dropped and nothing else changes; one that is not is added to the visited
  set before \<open>process\<close>, which does all fetching, starts; and after an iteration the
  popped URL is visited, whether its fetch failed or not. The loop of the second
  crawler keeps the same invariant and has the same two branches.
\<close>

theorem url_dequeued_at_most_once:
  "distinct (crawled (main cfg w fs))
   \<and> set (crawled (main cfg w fs)) \<subseteq> fset (visited (main cfg w fs))
   \<and> distinct (fetched (main cfg w fs))
   \<and> set (fetched (main cfg w fs)) \<subseteq> set (crawled (main cfg w fs))
   \<and> (\<forall>s. distinct (crawled s) \<and> set (crawled s) \<subseteq> fset (visited s) \<longrightarrow>
          distinct (crawled (crawl_loop cfg w s))
          \<and> set (crawled (crawl_loop cfg w s)) \<subseteq> fset (visited (crawl_loop cfg w s)))
   \<and> (\<forall>s. last (to_visit s) |\<in>| visited s \<longrightarrow>
          crawl_body cfg w s = s\<lparr>to_visit := butlast (to_visit s)\<rparr>)
   \<and> (\<forall>s. last (to_visit s) |\<notin>| visited s \<longrightarrow>
          crawl_body cfg w s =
            process cfg w (last (to_visit s))
              (say (Crawl (last (to_visit s)))
                 (s\<lparr>to_visit := butlast (to_visit s),
                    visited := finsert (last (to_visit s)) (visited s)\<rparr>)))
   \<and> (\<forall>s. last (to_visit s) |\<in>| visited (crawl_body cfg w s))
   \<and> (\<forall>s. distinct (crawled s) \<and> set (crawled s) \<subseteq> fset (visited s) \<longrightarrow>
          distinct (crawled (mariadb_loop cfg w s))
          \<and> set (crawled (mariadb_loop cfg w s)) \<subseteq> fset (visited (mariadb_loop cfg w s)))
   \<and> (\<forall>s. last (to_visit s) |\<in>| visited s \<longrightarrow>
          mariadb_body cfg w s = s\<lparr>to_visit := butlast (to_visit s)\<rparr>)
   \<and> (\<forall>s. last (to_visit s) |\<notin>| visited s \<longrightarrow>
          mariadb_body cfg w s =
            mariadb_process cfg w (last (to_visit s))
              (say (Crawl (last (to_visit s)))
                 (s\<lparr>to_visit := butlast (to_visit s),
                    visited := finsert (last (to_visit s)) (visited s)\<rparr>)))
   \<and> (\<forall>s. last (to_visit s) |\<in>| visited (mariadb_body cfg w s))"
proof (intro conjI allI impI)
  have ok: "frontier_ok w (main cfg w fs)"
    using frontier_ok_loop [OF frontier_ok_initial, of w cfg cfg fs]
    by (simp add: main_def frontier_ok_def)
  show "distinct (crawled (main cfg w fs))"
    using ok by (simp add: frontier_ok_def)
  show "set (crawled (main cfg w fs)) \<subseteq> fset (visited (main cfg w fs))"
    using ok by (simp add: frontier_ok_def)
  show "distinct (fetched (main cfg w fs))"
    using ok by (simp add: frontier_ok_def)
  show "set (fetched (main cfg w fs)) \<subseteq> set (crawled (main cfg w fs))"
    using ok by (auto simp add: frontier_ok_def)
next
  fix s :: crawl_state
  assume a: "distinct (crawled s) \<and> set (crawled s) \<subseteq> fset (visited s)"
  define P where "P t = (distinct (crawled t) \<and> set (crawled t) \<subseteq> fset (visited t))" for t
  have "P (crawl_loop cfg w s)"
  proof (rule crawl_loop_invariant)
    show "P s" using a by (simp add: P_def)
  next
    fix t
    assume "P t"
    then show "P (crawl_body cfg w t)"
      by (auto simp add: P_def crawled_body crawl_body_visited)
  qed
  then show "distinct (crawled (crawl_loop cfg w s))"
    and "set (crawled (crawl_loop cfg w s)) \<subseteq> fset (visited (crawl_loop cfg w s))"
    by (simp_all add: P_def)
next
  fix s :: crawl_state
  assume "last (to_visit s) |\<in>| visited s"
  then show "crawl_body cfg w s = s\<lparr>to_visit := butlast (to_visit s)\<rparr>"
    by (simp add: crawl_body_def Let_def)
next
  fix s :: crawl_state
  assume "last (to_visit s) |\<notin>| visited s"
  then show "crawl_body cfg w s =
            process cfg w (last (to_visit s))
              (say (Crawl (last (to_visit s)))
                 (s\<lparr>to_visit := butlast (to_visit s),
                    visited := finsert (last (to_visit s)) (visited s)\<rparr>))"
    by (simp add: crawl_body_def Let_def)
next
  fix s :: crawl_state
  show "last (to_visit s) |\<in>| visited (crawl_body cfg w s)"
    by (simp add: crawl_body_visited)
next
  fix s :: crawl_state
  assume "distinct (crawled s) \<and> set (crawled s) \<subseteq> fset (visited s)"
  then have "distinct (crawled (mariadb_loop cfg w s))
     \<and> set (crawled (mariadb_loop cfg w s)) \<subseteq> fset (visited (mariadb_loop cfg w s))"
    using mariadb_frontier by blast
  then show "distinct (crawled (mariadb_loop cfg w s))"
    and "set (crawled (mariadb_loop cfg w s)) \<subseteq> fset (visited (mariadb_loop cfg w s))"
    by simp_all
next
  fix s :: crawl_state
  assume "last (to_visit s) |\<in>| visited s"
  then show "mariadb_body cfg w s = s\<lparr>to_visit := butlast (to_visit s)\<rparr>"
    by (simp add: mariadb_body_def Let_def)
next
  fix s :: crawl_state
  assume "last (to_visit s) |\<notin>| visited s"
  then show "mariadb_body cfg w s =
            mariadb_process cfg w (last (to_visit s))
              (say (Crawl (last (to_visit s)))
                 (s\<lparr>to_visit := butlast (to_visit s),
                    visited := finsert (last (to_visit s)) (visited s)\<rparr>))"
    by (simp add: mariadb_body_def Let_def)
next
  fix s :: crawl_state
  show "last (to_visit s) |\<in>| visited (mariadb_body cfg w s)"
    by (simp add: mariadb_body_visited)
qed

theorem url_dequeued_at_most_once_witness:
  "distinct (crawled (crawl_loop apache_config cyclic_world duplicate_offers))
   \<and> set (crawled (crawl_loop apache_config cyclic_world duplicate_offers))
       \<subseteq> fset (visited (crawl_loop apache_config cyclic_world duplicate_offers))
   \<and> crawl_body apache_config cyclic_world seen_again = seen_again\<lparr>to_visit := []\<rparr>"
proof -
  have start: "distinct (crawled duplicate_offers)
      \<and> set (crawled duplicate_offers) \<subseteq> fset (visited duplicate_offers)"
    by (simp add: duplicate_offers_def initial_def crawled_def List.map_filter_def)
  have seen: "last (to_visit seen_again) |\<in>| visited seen_again"
    by (simp add: seen_again_def initial_def apache_config_def page_X_def)
  have butlast: "butlast (to_visit seen_again) = []"
    by (simp add: seen_again_def initial_def)
  note all = url_dequeued_at_most_once [of apache_config cyclic_world Map.empty]
  note loop = all [THEN conjunct2, THEN conjunct2, THEN conjunct2, THEN conjunct2,
      THEN conjunct1, rule_format, OF start]
  note skip = all [THEN conjunct2, THEN conjunct2, THEN conjunct2, THEN conjunct2,
      THEN conjunct2, THEN conjunct1, rule_format, OF seen]
  from loop skip show ?thesis
    unfolding butlast by simp
qed



section \<open>Offering links and counting pages\<close>

text \<open>A start page that carries the same link twice.\<close>

definition twice_linked_world :: world where
  "twice_linked_world =
     cyclic_world\<lparr>get_links := (\<lambda>u. Some (page_with_links [page_Y, page_Y]))\<rparr>"

text \<open>A world in which no page renders: \<^verbatim>\<open>pdfkit.from_string\<close> always raises.\<close>

definition unrenderable_world :: world where
  "unrenderable_world = cyclic_world\<lparr>from_string := (\<lambda>html_str pdf_path. None)\<rparr>"

text \<open>The worklist after the links of a page were offered.\<close>

lemma to_visit_offer:
  "to_visit (offer cfg w url s href) =
     (if urljoin w url href |\<notin>| visited s \<and> is_valid_link cfg (urljoin w url href)
      then to_visit s @ [urljoin w url href] else to_visit s)"
  by (simp add: offer_def Let_def)

lemma to_visit_offers:
  "to_visit (foldl (offer cfg w url) s hs) =
     to_visit s @ filter (\<lambda>u. u |\<notin>| visited s \<and> is_valid_link cfg u) (map (urljoin w url) hs)"
  by (induction hs arbitrary: s) (simp_all add: to_visit_offer)

lemma to_visit_html_to_pdf [simp]: "to_visit (html_to_pdf w h p s) = to_visit s"
  by (simp add: html_to_pdf_def split: option.splits)

lemma to_visit_process:
  "to_visit (process cfg w url s) =
     (case get_links w url of
        None \<Rightarrow> to_visit s
      | Some sp \<Rightarrow>
          to_visit s @ filter (\<lambda>u. u |\<notin>| visited s \<and> is_valid_link cfg u)
                         (map (urljoin w url) (hrefs sp)))"
  by (simp add: process_def fetch_and_cleanup_html_def Let_def to_visit_offers
      split: option.splits)

lemma to_visit_body:
  "to_visit (crawl_body cfg w s) =
     (if last (to_visit s) |\<in>| visited s then butlast (to_visit s)
      else case get_links w (last (to_visit s)) of
             None \<Rightarrow> butlast (to_visit s)
           | Some sp \<Rightarrow>
               butlast (to_visit s) @
               filter (\<lambda>u. u |\<notin>| visited (crawl_body cfg w s) \<and> is_valid_link cfg u)
                      (map (urljoin w (last (to_visit s))) (hrefs sp)))"
  by (simp add: crawl_body_visited) (simp add: crawl_body_def Let_def to_visit_process split: option.splits)

text \<open>
  \<^bold>\<open>C8\<close> (as amended). Offering a link appends its resolved URL to the worklist exactly
  when the URL is not in the visited set and passes the link filter; the pending
  worklist is not consulted, and the visited set is left alone. So after an iteration
  every URL on the worklist was there before or is an unvisited, valid link. The second
  crawler offers links in the same way, under its own filter.
\<close>

theorem offer_checks_visited_only:
  "to_visit (offer cfg w url s href) =
     (if urljoin w url href |\<notin>| visited s \<and> is_valid_link cfg (urljoin w url href)
      then to_visit s @ [urljoin w url href] else to_visit s)
   \<and> visited (offer cfg w url s href) = visited s
   \<and> set (to_visit (crawl_body cfg w s))
       \<subseteq> set (butlast (to_visit s))
         \<union> {u. u |\<notin>| visited (crawl_body cfg w s) \<and> is_valid_link cfg u}
   \<and> to_visit (mariadb_offer cfg w url s href) =
       (if urljoin w url href |\<notin>| visited s
           \<and> mariadb_is_valid_link cfg (urljoin w url href)
        then to_visit s @ [urljoin w url href] else to_visit s)
   \<and> visited (mariadb_offer cfg w url s href) = visited s"
proof (intro conjI)
  show "to_visit (mariadb_offer cfg w url s href) =
       (if urljoin w url href |\<notin>| visited s
           \<and> mariadb_is_valid_link cfg (urljoin w url href)
        then to_visit s @ [urljoin w url href] else to_visit s)"
    by (rule to_visit_mariadb_offer)
  show "visited (mariadb_offer cfg w url s href) = visited s"
    by (simp add: mariadb_offer_def Let_def)
  show "to_visit (offer cfg w url s href) =
     (if urljoin w url href |\<notin>| visited s \<and> is_valid_link cfg (urljoin w url href)
      then to_visit s @ [urljoin w url href] else to_visit s)"
    by (rule to_visit_offer)
  show "visited (offer cfg w url s href) = visited s"
    by simp
  show "set (to_visit (crawl_body cfg w s))
       \<subseteq> set (butlast (to_visit s))
         \<union> {u. u |\<notin>| visited (crawl_body cfg w s) \<and> is_valid_link cfg u}"
    by (subst to_visit_body) (auto split: option.splits)
qed

text \<open>An unvisited valid link is appended to a worklist that already holds it twice.\<close>

theorem offer_checks_visited_only_witness:
  "to_visit (offer apache_config cyclic_world page_X duplicate_offers page_Y)
     = [page_Y, page_X, page_Y, page_X, page_Y]"
proof -
  have "urljoin cyclic_world page_X page_Y |\<notin>| visited duplicate_offers
      \<and> is_valid_link apache_config (urljoin cyclic_world page_X page_Y)"
    by code_simp
  then show ?thesis
    using offer_checks_visited_only [of apache_config cyclic_world page_X duplicate_offers page_Y]
    by (simp add: duplicate_offers_def cyclic_world_def)
qed

text \<open>
  \<^bold>\<open>C8\<close> as stated fails: a URL that is pending on the worklist is appended again
  when it is offered, and after the first iteration on a start page that carries the
  same link twice the worklist holds that URL twice.
\<close>

theorem worklist_duplicates_counterexample:
  "page_Y \<in> set (to_visit (duplicate_offers\<lparr>to_visit := [page_Y]\<rparr>))
   \<and> to_visit (offer apache_config cyclic_world page_X
        (duplicate_offers\<lparr>to_visit := [page_Y]\<rparr>) page_Y) = [page_Y, page_Y]
   \<and> to_visit (crawl_body apache_config twice_linked_world (initial apache_config Map.empty))
       = [page_Y, page_Y]
   \<and> \<not> distinct
        (to_visit (crawl_body apache_config twice_linked_world (initial apache_config Map.empty)))"
  by code_simp

text \<open>What processing a URL does to the manifest, the counter and the files.\<close>

lemma pdf_files_offers [simp]: "pdf_files (foldl (offer cfg w url) s hs) = pdf_files s"
  by (induction hs arbitrary: s) (simp_all add: offer_def Let_def)

lemma page_count_offers [simp]: "page_count (foldl (offer cfg w url) s hs) = page_count s"
  by (induction hs arbitrary: s) (simp_all add: offer_def Let_def)

lemma files_offers [simp]: "files (foldl (offer cfg w url) s hs) = files s"
  by (induction hs arbitrary: s) (simp_all add: offer_def Let_def)

text \<open>The pages a URL contributes: those of its PDF when both requests and the renderer succeed.\<close>

definition converted :: "world \<Rightarrow> string \<Rightarrow> bool" where
  "converted w u = (get_links w u \<noteq> None \<and> get_page w u \<noteq> None)"

definition render :: "config \<Rightarrow> world \<Rightarrow> string \<Rightarrow> string list option" where
  "render cfg w u =
     (case get_page w u of
        None \<Rightarrow> None
      | Some sp \<Rightarrow> from_string w (cleanup_html cfg sp) (pdf_fullpath cfg u))"

lemma pdf_files_process:
  "pdf_files (process cfg w url s) =
     pdf_files s @ (if converted w url then [pdf_fullpath cfg url] else [])"
  by (simp add: process_def fetch_and_cleanup_html_def Let_def html_to_pdf_def converted_def
      split: option.splits)

lemma page_count_process:
  "page_count (process cfg w url s) = page_count s + (if converted w url then 1 else 0)"
  by (simp add: process_def fetch_and_cleanup_html_def Let_def html_to_pdf_def converted_def
      split: option.splits)

lemma files_process:
  "files (process cfg w url s) =
     (if converted w url
      then (case render cfg w url of
              None \<Rightarrow> files s
            | Some pages \<Rightarrow> (files s)(pdf_fullpath cfg url \<mapsto> Pdf pages))
      else files s)"
  by (simp add: process_def fetch_and_cleanup_html_def Let_def html_to_pdf_def converted_def
      render_def split: option.splits)

lemma printed_process_failed:
  "converted w url \<Longrightarrow> render cfg w url = None \<Longrightarrow>
   printed (process cfg w url s) = printed s @ [Get url, Pdfkit_error (pdf_fullpath cfg url)]"
  by (auto simp add: process_def fetch_and_cleanup_html_def Let_def html_to_pdf_def converted_def
      render_def split: option.splits)

text \<open>
  \<^bold>\<open>C10.\<close> When both requests for a popped URL succeed and the renderer raises,
  \<^verbatim>\<open>html_to_pdf\<close> reports the error and returns: the iteration still appends the
  page's path to \<^verbatim>\<open>pdf_files\<close> and adds one to \<^verbatim>\<open>page_count\<close>, and no file is
  written. On the two-page site with a renderer that always fails, both paths are on
  the manifest while neither file exists, the summary reports 2 created PDFs, and the
  merger reports both inputs as errors.
\<close>

theorem failed_render_still_counted:
  "(last (to_visit s) |\<notin>| visited s
      \<and> get_links w (last (to_visit s)) = Some sp
      \<and> get_page w (last (to_visit s)) = Some sp'
      \<and> from_string w (cleanup_html cfg sp') (pdf_fullpath cfg (last (to_visit s))) = None
    \<longrightarrow> pdf_files (crawl_body cfg w s) = pdf_files s @ [pdf_fullpath cfg (last (to_visit s))]
        \<and> page_count (crawl_body cfg w s) = page_count s + 1
        \<and> files (crawl_body cfg w s) = files s
        \<and> printed (crawl_body cfg w s) =
            printed s @ [Crawl (last (to_visit s)), Get (last (to_visit s)),
                         Pdfkit_error (pdf_fullpath cfg (last (to_visit s)))])
   \<and> pdf_files (crawl_loop apache_config unrenderable_world (initial apache_config Map.empty))
       = [''apache_httpd_docs_pdf/docs-current.pdf'',
          ''apache_httpd_docs_pdf/docs-current-mod-core.html.pdf'']
   \<and> files (crawl_loop apache_config unrenderable_world (initial apache_config Map.empty))
         ''apache_httpd_docs_pdf/docs-current.pdf'' = None
   \<and> files (crawl_loop apache_config unrenderable_world (initial apache_config Map.empty))
         ''apache_httpd_docs_pdf/docs-current-mod-core.html.pdf'' = None
   \<and> printed (main apache_config unrenderable_world Map.empty) =
       [Crawl page_X, Get page_X, Pdfkit_error ''apache_httpd_docs_pdf/docs-current.pdf'',
        Crawl page_Y, Get page_Y,
        Pdfkit_error ''apache_httpd_docs_pdf/docs-current-mod-core.html.pdf'',
        Summary 2 2,
        Merging 2 ''apache_httpd_docs_pdf/Apache_HTTP_Server_24_Docs_Merged.pdf'',
        Merge_error ''apache_httpd_docs_pdf/docs-current.pdf'',
        Merge_error ''apache_httpd_docs_pdf/docs-current-mod-core.html.pdf'',
        Merge_complete]"
proof (intro conjI impI)
  assume a: "last (to_visit s) |\<notin>| visited s
      \<and> get_links w (last (to_visit s)) = Some sp
      \<and> get_page w (last (to_visit s)) = Some sp'
      \<and> from_string w (cleanup_html cfg sp') (pdf_fullpath cfg (last (to_visit s))) = None"
  then have c: "converted w (last (to_visit s))"
    and r: "render cfg w (last (to_visit s)) = None"
    by (simp_all add: converted_def render_def)
  from a c show "pdf_files (crawl_body cfg w s)
      = pdf_files s @ [pdf_fullpath cfg (last (to_visit s))]"
    by (simp add: crawl_body_def Let_def pdf_files_process)
  from a c show "page_count (crawl_body cfg w s) = page_count s + 1"
    by (simp add: crawl_body_def Let_def page_count_process)
  from a c r show "files (crawl_body cfg w s) = files s"
    by (simp add: crawl_body_def Let_def files_process)
  from a c r show "printed (crawl_body cfg w s) =
            printed s @ [Crawl (last (to_visit s)), Get (last (to_visit s)),
                         Pdfkit_error (pdf_fullpath cfg (last (to_visit s)))]"
    by (simp add: crawl_body_def Let_def printed_process_failed)
next
  show "pdf_files (crawl_loop apache_config unrenderable_world (initial apache_config Map.empty))
       = [''apache_httpd_docs_pdf/docs-current.pdf'',
          ''apache_httpd_docs_pdf/docs-current-mod-core.html.pdf'']"
    by code_simp
  show "files (crawl_loop apache_config unrenderable_world (initial apache_config Map.empty))
         ''apache_httpd_docs_pdf/docs-current.pdf'' = None"
    by code_simp
  show "files (crawl_loop apache_config unrenderable_world (initial apache_config Map.empty))
         ''apache_httpd_docs_pdf/docs-current-mod-core.html.pdf'' = None"
    by code_simp
  show "printed (main apache_config unrenderable_world Map.empty) =
       [Crawl page_X, Get page_X, Pdfkit_error ''apache_httpd_docs_pdf/docs-current.pdf'',
        Crawl page_Y, Get page_Y,
        Pdfkit_error ''apache_httpd_docs_pdf/docs-current-mod-core.html.pdf'',
        Summary 2 2,
        Merging 2 ''apache_httpd_docs_pdf/Apache_HTTP_Server_24_Docs_Merged.pdf'',
        Merge_error ''apache_httpd_docs_pdf/docs-current.pdf'',
        Merge_error ''apache_httpd_docs_pdf/docs-current-mod-core.html.pdf'',
        Merge_complete]"
    by code_simp
qed

text \<open>The first iteration of that run: one path on the manifest, count 1, no file.\<close>

theorem failed_render_still_counted_witness:
  "pdf_files (crawl_body apache_config unrenderable_world (initial apache_config Map.empty))
     = [pdf_fullpath apache_config page_X]
   \<and> page_count (crawl_body apache_config unrenderable_world (initial apache_config Map.empty))
     = 1
   \<and> files (crawl_body apache_config unrenderable_world (initial apache_config Map.empty))
     = Map.empty"
proof -
  have "last (to_visit (initial apache_config Map.empty))
          |\<notin>| visited (initial apache_config Map.empty)
      \<and> get_links unrenderable_world (last (to_visit (initial apache_config Map.empty)))
          = Some (page_with_links [page_Y])
      \<and> get_page unrenderable_world (last (to_visit (initial apache_config Map.empty)))
          = Some (page_with_links [page_Y])
      \<and> from_string unrenderable_world
          (cleanup_html apache_config (page_with_links [page_Y]))
          (pdf_fullpath apache_config (last (to_visit (initial apache_config Map.empty))))
          = None"
    by (simp add: initial_def unrenderable_world_def cyclic_world_def cyclic_site_def
        apache_config_def page_X_def)
  then show ?thesis
    using failed_render_still_counted [of "initial apache_config Map.empty"
        unrenderable_world "page_with_links [page_Y]" "page_with_links [page_Y]" apache_config]
    by (simp add: initial_def apache_config_def page_X_def)
qed

section \<open>The content cleaner\<close>

text \<open>
  Three pages: one with the main-content region inside clutter, one with a body and no
  such region, and one that is a script and nothing else.
\<close>

definition region_page :: soup where
  "region_page =
     [Element ''html'' []
        [Element ''body'' []
           [Element ''div'' [(''id'', ''page-header'')] [Text ''Apache''],
            Element ''div'' [(''id'', ''page-content'')]
              [Text ''Hello'', Element ''script'' [] [Text ''x''],
               Element ''div'' [(''class'', ''note toplang'')] [Text ''en'']],
            Element ''div'' [(''id'', ''footer'')] [Text ''bye'']]]]"

definition plain_page :: soup where
  "plain_page =
     [Element ''html'' []
        [Element ''head'' [] [Element ''style'' [] [Text ''p''] ],
         Element ''body'' [] [Element ''nav'' [] [Text ''menu''], Text ''Hello'']]]"

definition script_page :: soup where
  "script_page = [Element ''script'' [] [Text ''x'']]"

text \<open>
  Pruning keeps the tag and the attributes of a node, so what a selector matches does
  not change; every node left after a removal is the pruned form of an original node
  that the selector does not match.
\<close>

lemma matches_prune [simp]: "matches sel (prune sel' n) = matches sel n"
  by (cases n) (simp_all add: matches_def)

lemma nodes_of_self [simp]: "n \<in> set (nodes_of n)"
  by (cases n) simp_all

lemma nodes_of_trans:
  "m \<in> set (nodes_of n) \<Longrightarrow> set (nodes_of m) \<subseteq> set (nodes_of n)"
proof (induction n)
  case (Element t a cs)
  show ?case
  proof (cases "m = Element t a cs")
    case True
    then show ?thesis by simp
  next
    case False
    with Element.prems obtain c where c: "c \<in> set cs" "m \<in> set (nodes_of c)"
      by auto
    with Element.IH have "set (nodes_of m) \<subseteq> set (nodes_of c)"
      by blast
    with c show ?thesis by auto
  qed
next
  case (Text x)
  then show ?case by simp
qed

lemma all_nodes_closed:
  "n \<in> set (all_nodes sp) \<Longrightarrow> set (nodes_of n) \<subseteq> set (all_nodes sp)"
  using nodes_of_trans by (fastforce simp add: all_nodes_def)

lemma nodes_of_prune:
  "m \<in> set (nodes_of (prune sel n)) \<Longrightarrow>
   \<exists>n' \<in> set (nodes_of n). m = prune sel n' \<and> (\<not> matches sel n \<longrightarrow> \<not> matches sel n')"
proof (induction n)
  case (Element t a cs)
  show ?case
  proof (cases "m = prune sel (Element t a cs)")
    case True
    then show ?thesis
      using nodes_of_self by blast
  next
    case False
    with Element.prems obtain c where c: "c \<in> set cs" "\<not> matches sel c"
        "m \<in> set (nodes_of (prune sel c))"
      by auto
    with Element.IH obtain n' where "n' \<in> set (nodes_of c)" "m = prune sel n'"
        "\<not> matches sel n'"
      by blast
    with c show ?thesis by auto
  qed
next
  case (Text x)
  then show ?case by simp
qed

lemma all_nodes_decompose_all:
  assumes "m \<in> set (all_nodes (decompose_all sp sel))"
  shows "\<exists>n \<in> set (all_nodes sp). m = prune sel n \<and> \<not> matches sel n"
proof -
  from assms obtain c where c: "c \<in> set sp" "\<not> matches sel c"
      "m \<in> set (nodes_of (prune sel c))"
    by (auto simp add: all_nodes_def decompose_all_def)
  with nodes_of_prune [of m sel c] obtain n' where "n' \<in> set (nodes_of c)"
      "m = prune sel n'" "\<not> matches sel n'"
    by blast
  with c show ?thesis
    by (auto simp add: all_nodes_def)
qed

lemma decompose_all_removes:
  "m \<in> set (all_nodes (decompose_all sp sel)) \<Longrightarrow> \<not> matches sel m"
  using all_nodes_decompose_all by fastforce

lemma decompose_all_keeps_clean:
  "\<forall>n \<in> set (all_nodes sp). \<not> matches sel' n \<Longrightarrow>
   m \<in> set (all_nodes (decompose_all sp sel)) \<Longrightarrow> \<not> matches sel' m"
  using all_nodes_decompose_all by fastforce

lemma foldl_decompose_all_clean:
  "sel \<in> set sels \<Longrightarrow> m \<in> set (all_nodes (foldl decompose_all sp sels)) \<Longrightarrow>
   \<not> matches sel m"
proof (induction sels arbitrary: m rule: rev_induct)
  case Nil
  then show ?case by simp
next
  case (snoc x xs)
  show ?case
  proof (cases "sel = x")
    case True
    with snoc.prems show ?thesis
      by (simp add: decompose_all_removes)
  next
    case False
    with snoc.prems have "sel \<in> set xs" by simp
    with snoc.IH have "\<forall>n \<in> set (all_nodes (foldl decompose_all sp xs)). \<not> matches sel n"
      by blast
    with snoc.prems show ?thesis
      using decompose_all_keeps_clean by simp
  qed
qed

lemma find_first_Some:
  "find_first P sp = Some d \<Longrightarrow> d \<in> set (all_nodes sp) \<and> P d"
  by (auto simp add: find_first_def split: list.splits dest: filter_eq_ConsD)

lemma find_first_None:
  "(find_first P sp = None) = (\<forall>n \<in> set (all_nodes sp). \<not> P n)"
proof -
  have "(filter P (all_nodes sp) = []) = (\<forall>n \<in> set (all_nodes sp). \<not> P n)"
    by (simp add: filter_empty_conv)
  then show ?thesis
    by (cases "filter P (all_nodes sp)") (simp_all add: find_first_def)
qed

lemma all_nodes_single [simp]: "all_nodes [n] = nodes_of n"
  by (simp add: all_nodes_def)

lemma cleanup_html_nodes:
  "set (all_nodes (cleanup_html cfg sp)) \<subseteq> set (all_nodes (remove_clutter cfg sp))"
  by (auto simp add: cleanup_html_def Let_def split: option.splits
      dest!: find_first_Some dest: all_nodes_closed)

lemma cleanup_html_empty:
  "(cleanup_html cfg sp = []) = (remove_clutter cfg sp = [])"
proof
  assume "cleanup_html cfg sp = []"
  then show "remove_clutter cfg sp = []"
    by (simp add: cleanup_html_def Let_def split: option.splits)
next
  assume e: "remove_clutter cfg sp = []"
  then have "find_first is_page_content (remove_clutter cfg sp) = None"
    and "find_first (has_tag ''body'') (remove_clutter cfg sp) = None"
    by (simp_all add: find_first_def all_nodes_def)
  with e show "cleanup_html cfg sp = []"
    by (simp add: cleanup_html_def Let_def)
qed

text \<open>
  \<^bold>\<open>C9\<close> (as amended). After the clutter is removed, the cleaner returns the first
  main-content region when there is one; else the first body element when there is
  one; else the whole remaining document. A region or a body is missing exactly when no
  node of the remaining document is one. The result is empty exactly when nothing
  remains after the removal; no node of the result matches a removal selector; and once
  the page is fetched, cleaning does not fail.
\<close>

theorem cleanup_fallback:
  "(\<forall>d. find_first is_page_content (remove_clutter cfg sp) = Some d \<longrightarrow>
        cleanup_html cfg sp = [d] \<and> is_page_content d
        \<and> d \<in> set (all_nodes (remove_clutter cfg sp)))
   \<and> (\<forall>b. find_first is_page_content (remove_clutter cfg sp) = None
          \<and> find_first (has_tag ''body'') (remove_clutter cfg sp) = Some b \<longrightarrow>
        cleanup_html cfg sp = [b] \<and> has_tag ''body'' b
        \<and> b \<in> set (all_nodes (remove_clutter cfg sp)))
   \<and> (find_first is_page_content (remove_clutter cfg sp) = None
        \<and> find_first (has_tag ''body'') (remove_clutter cfg sp) = None \<longrightarrow>
        cleanup_html cfg sp = remove_clutter cfg sp)
   \<and> (find_first is_page_content (remove_clutter cfg sp) = None) =
        (\<forall>n \<in> set (all_nodes (remove_clutter cfg sp)). \<not> is_page_content n)
   \<and> (find_first (has_tag ''body'') (remove_clutter cfg sp) = None) =
        (\<forall>n \<in> set (all_nodes (remove_clutter cfg sp)). \<not> has_tag ''body'' n)
   \<and> (cleanup_html cfg sp = []) = (remove_clutter cfg sp = [])
   \<and> (\<forall>n \<in> set (all_nodes (cleanup_html cfg sp)).
         \<forall>sel \<in> set (SELECTORS_TO_REMOVE cfg). \<not> matches sel n)
   \<and> (\<forall>page. get_page w url = Some page \<longrightarrow>
         fst (fetch_and_cleanup_html cfg w url s) = Inr (cleanup_html cfg page))"
proof (intro conjI allI impI ballI)
  fix d
  assume f: "find_first is_page_content (remove_clutter cfg sp) = Some d"
  then show "cleanup_html cfg sp = [d]"
    by (simp add: cleanup_html_def Let_def)
  from f show "is_page_content d" and "d \<in> set (all_nodes (remove_clutter cfg sp))"
    by (simp_all add: find_first_Some)
next
  fix b
  assume f: "find_first is_page_content (remove_clutter cfg sp) = None
          \<and> find_first (has_tag ''body'') (remove_clutter cfg sp) = Some b"
  then show "cleanup_html cfg sp = [b]"
    by (simp add: cleanup_html_def Let_def)
  from f have "find_first (has_tag ''body'') (remove_clutter cfg sp) = Some b"
    by simp
  then show "has_tag ''body'' b" and "b \<in> set (all_nodes (remove_clutter cfg sp))"
    by (simp_all add: find_first_Some)
next
  assume "find_first is_page_content (remove_clutter cfg sp) = None
        \<and> find_first (has_tag ''body'') (remove_clutter cfg sp) = None"
  then show "cleanup_html cfg sp = remove_clutter cfg sp"
    by (simp add: cleanup_html_def Let_def)
next
  show "(find_first is_page_content (remove_clutter cfg sp) = None) =
        (\<forall>n \<in> set (all_nodes (remove_clutter cfg sp)). \<not> is_page_content n)"
    by (rule find_first_None)
  show "(find_first (has_tag ''body'') (remove_clutter cfg sp) = None) =
        (\<forall>n \<in> set (all_nodes (remove_clutter cfg sp)). \<not> has_tag ''body'' n)"
    by (rule find_first_None)
  show "(cleanup_html cfg sp = []) = (remove_clutter cfg sp = [])"
    by (rule cleanup_html_empty)
next
  fix n sel
  assume "n \<in> set (all_nodes (cleanup_html cfg sp))" and sel: "sel \<in> set (SELECTORS_TO_REMOVE cfg)"
  then have "n \<in> set (all_nodes (remove_clutter cfg sp))"
    using cleanup_html_nodes by blast
  with sel show "\<not> matches sel n"
    unfolding remove_clutter_def by (rule foldl_decompose_all_clean)
next
  fix page
  assume "get_page w url = Some page"
  then show "fst (fetch_and_cleanup_html cfg w url s) = Inr (cleanup_html cfg page)"
    by (simp add: fetch_and_cleanup_html_def)
qed

text \<open>The three cases on the three pages.\<close>

theorem cleanup_fallback_witness:
  "cleanup_html apache_config region_page =
     [Element ''div'' [(''id'', ''page-content'')] [Text ''Hello'']]
   \<and> cleanup_html apache_config plain_page = [Element ''body'' [] [Text ''Hello'']]
   \<and> cleanup_html apache_config script_page = remove_clutter apache_config script_page"
proof (intro conjI)
  have "find_first is_page_content (remove_clutter apache_config region_page) =
      Some (Element ''div'' [(''id'', ''page-content'')] [Text ''Hello''])"
    by code_simp
  then show "cleanup_html apache_config region_page =
     [Element ''div'' [(''id'', ''page-content'')] [Text ''Hello'']]"
    using cleanup_fallback [of apache_config region_page] by blast
next
  have "find_first is_page_content (remove_clutter apache_config plain_page) = None
      \<and> find_first (has_tag ''body'') (remove_clutter apache_config plain_page) =
          Some (Element ''body'' [] [Text ''Hello''])"
    by code_simp
  then show "cleanup_html apache_config plain_page = [Element ''body'' [] [Text ''Hello'']]"
    using cleanup_fallback [of apache_config plain_page] by blast
next
  have "find_first is_page_content (remove_clutter apache_config script_page) = None
      \<and> find_first (has_tag ''body'') (remove_clutter apache_config script_page) = None"
    by code_simp
  then show "cleanup_html apache_config script_page = remove_clutter apache_config script_page"
    using cleanup_fallback [of apache_config script_page] by blast
qed

text \<open>
  \<^bold>\<open>C9\<close> as stated fails in its last part: the result is empty for the empty page and
  for a page that is clutter only, also when it comes through
  \<^verbatim>\<open>fetch_and_cleanup_html\<close>.
\<close>

theorem cleanup_empty_counterexample:
  "cleanup_html apache_config [] = []
   \<and> cleanup_html apache_config script_page = []
   \<and> fst (fetch_and_cleanup_html apache_config
            (cyclic_world\<lparr>get_page := (\<lambda>u. Some script_page)\<rparr>) page_X
            (initial apache_config Map.empty)) = Inr []"
  by code_simp

section \<open>From the crawl to the merged document\<close>


definition write_pdf :: "filesystem \<Rightarrow> string \<times> string list option \<Rightarrow> filesystem" where
  "write_pdf fs c = (case snd c of None \<Rightarrow> fs | Some pages \<Rightarrow> fs(fst c \<mapsto> Pdf pages))"

definition pages_of :: "string \<times> string list option \<Rightarrow> string list" where
  "pages_of c = (case snd c of None \<Rightarrow> [] | Some pages \<Rightarrow> pages)"



lemma write_pdf_simps [simp]:
  "write_pdf fs (p, None) = fs"
  "write_pdf fs (p, Some pages) = fs(p \<mapsto> Pdf pages)"
  by (simp_all add: write_pdf_def)

lemma pages_of_simps [simp]:
  "pages_of (p, None) = []"
  "pages_of (p, Some pages) = pages"
  by (simp_all add: pages_of_def)













lemma pdf_files_finish [simp]: "pdf_files (finish cfg s) = pdf_files s"
  by (simp add: finish_def Let_def merge_pdfs_def split: prod.splits)

section \<open>Renderer failures and the merged document\<close>







text \<open>The frontier does not depend on the renderer: which pages are crawled is the same.\<close>

lemma to_visit_body_renderer:
  "to_visit (crawl_body cfg (w\<lparr>from_string := f\<rparr>) s) = to_visit (crawl_body cfg w s)"
  by (simp add: to_visit_body crawl_body_visited split: option.splits)





section \<open>The resumable cache (bind9\_pdf\_v2.py)\<close>

text \<open>
  The values of \<^verbatim>\<open>slug_cache\<close>: a key that is missing or \<^verbatim>\<open>null\<close> is \<open>None\<close>.
\<close>

record slug_info =
  articleId :: "string option"
  lastChecked :: "string option"
  lastStatusCode :: "nat option"

text \<open>
  The outside world of the script. \<open>goto\<close> is the browser's navigation to the page of
  a slug; \<open>findall_article_ids\<close> stands for the regular expression search for
  \<^verbatim>\<open>"articleId":"<uuid>"\<close> in the page text; \<open>post_generate\<close>, \<open>get_status\<close> (by task and
  attempt number) and \<open>get_pdf\<close> are the three requests to the document platform. A
  request that raises and one that answers with an HTTP error are handled alike by the
  script, and are one value here.
\<close>

datatype goto_result = Goto_raised | No_response | Response nat string

datatype post_result = Post_failed | Post_ok "string option"

datatype status_result = Status_failed | Status bool "(string \<times> string option) list"

record api =
  goto :: "string \<Rightarrow> goto_result"
  findall_article_ids :: "string \<Rightarrow> string list"
  now :: string
  post_generate :: "string \<Rightarrow> string \<Rightarrow> post_result"
  get_status :: "string \<Rightarrow> nat \<Rightarrow> status_result"
  get_pdf :: "string \<Rightarrow> disk_file option"

text \<open>The lines of the main flow that tell what was done for a slug.\<close>

datatype notice =
  Marked_failed string
  | Found_id string string
  | Warn_missing string string
  | Attempting string string
  | Success string string
  | Fail_download string
  | Fail_no_url string
  | Appending string string
  | Could_not_append string
  | Merged nat
  | Warn_nothing_appended
  | Info_missing "string list" "string list"
  | Info_all_merged

text \<open>
  The three caches in memory, their copies on disk (the JSON files, as last saved), the
  PDF files on disk and the output.
\<close>

record cache_state =
  slug_cache :: "string \<rightharpoonup> slug_info"
  pdf_tracker :: "string \<rightharpoonup> string"
  failed_slugs :: "string fset"
  slug_cache_json :: "string \<rightharpoonup> slug_info"
  pdf_tracker_json :: "string \<rightharpoonup> string"
  failed_slugs_json :: "string fset"
  disk :: filesystem
  notices :: "notice list"

definition tell :: "notice \<Rightarrow> cache_state \<Rightarrow> cache_state" where
  "tell n s = s\<lparr>notices := notices s @ [n]\<rparr>"

definition GLOBAL_ID :: string where
  "GLOBAL_ID = ''c8128481-2ed5-44b5-abba-44e290850c4d''"

definition FINAL_MERGED_PDF :: string where
  "FINAL_MERGED_PDF = ''ALL_MERGED.pdf''"

text \<open>\<^verbatim>\<open>os.path.isfile\<close>.\<close>

definition isfile :: "filesystem \<Rightarrow> string \<Rightarrow> bool" where
  "isfile fs p = (fs p \<noteq> None)"

text \<open>\<^verbatim>\<open>slug_cache.get(slug, {}).get("articleId")\<close>, when it is truthy.\<close>

definition article_id_of :: "cache_state \<Rightarrow> string \<Rightarrow> string option" where
  "article_id_of s slug =
     (case slug_cache s slug of
        None \<Rightarrow> None
      | Some info \<Rightarrow>
          (case articleId info of
             None \<Rightarrow> None
           | Some art_id \<Rightarrow> if art_id = [] then None else Some art_id))"

subsection \<open>Step A: resolving slugs\<close>

definition find_real_article_id :: "api \<Rightarrow> string \<Rightarrow> string option" where
  "find_real_article_id a html_text =
     (case filter (\<lambda>m. lower m \<noteq> GLOBAL_ID) (findall_article_ids a html_text) of
        [] \<Rightarrow> None
      | m # ms \<Rightarrow> Some m)"

definition save_slug_cache :: "cache_state \<Rightarrow> cache_state" where
  "save_slug_cache s = s\<lparr>slug_cache_json := slug_cache s\<rparr>"

definition save_failed_slugs :: "cache_state \<Rightarrow> cache_state" where
  "save_failed_slugs s = s\<lparr>failed_slugs_json := failed_slugs s\<rparr>"

definition save_pdf_tracker :: "cache_state \<Rightarrow> cache_state" where
  "save_pdf_tracker s = s\<lparr>pdf_tracker_json := pdf_tracker s\<rparr>"

definition the_info :: "cache_state \<Rightarrow> string \<Rightarrow> slug_info" where
  "the_info s slug =
     (case slug_cache s slug of
        None \<Rightarrow> \<lparr>articleId = None, lastChecked = None, lastStatusCode = None\<rparr>
      | Some info \<Rightarrow> info)"

definition set_info :: "string \<Rightarrow> (slug_info \<Rightarrow> slug_info) \<Rightarrow> cache_state \<Rightarrow> cache_state" where
  "set_info slug f s = s\<lparr>slug_cache := (slug_cache s)(slug \<mapsto> f (the_info s slug))\<rparr>"

definition mark_failed :: "string \<Rightarrow> cache_state \<Rightarrow> cache_state" where
  "mark_failed slug s = tell (Marked_failed slug) (s\<lparr>failed_slugs := finsert slug (failed_slugs s)\<rparr>)"

text \<open>One iteration of the loop of Step A.\<close>

definition resolve_step :: "api \<Rightarrow> cache_state \<Rightarrow> string \<Rightarrow> cache_state" where
  "resolve_step a s slug =
     (if slug |\<in>| failed_slugs s then s
      else if article_id_of s slug \<noteq> None then s
      else
        (case goto a slug of
           Goto_raised \<Rightarrow> save_failed_slugs (mark_failed slug s)
         | No_response \<Rightarrow>
             save_slug_cache (save_failed_slugs (mark_failed slug
               (set_info slug (\<lambda>i. i\<lparr>articleId := None, lastChecked := Some (now a),
                                      lastStatusCode := Some 999\<rparr>) s)))
         | Response status_code html_text \<Rightarrow>
             (let s1 = set_info slug (\<lambda>i. i\<lparr>lastChecked := Some (now a),
                                           lastStatusCode := Some status_code\<rparr>) s;
                  s2 = (if status_code = 200 \<and> html_text \<noteq> []
                        then (case find_real_article_id a html_text of
                                None \<Rightarrow>
                                  mark_failed slug
                                    (set_info slug (\<lambda>i. i\<lparr>articleId := None\<rparr>) s1)
                              | Some found_id \<Rightarrow>
                                  if found_id = []
                                  then mark_failed slug
                                         (set_info slug (\<lambda>i. i\<lparr>articleId := None\<rparr>) s1)
                                  else tell (Found_id slug found_id)
                                         (set_info slug
                                            (\<lambda>i. i\<lparr>articleId := Some found_id\<rparr>) s1))
                        else mark_failed slug (set_info slug (\<lambda>i. i\<lparr>articleId := None\<rparr>) s1))
              in save_failed_slugs (save_slug_cache s2))))"

subsection \<open>Step B: generating and downloading\<close>

text \<open>
  \<^verbatim>\<open>poll_task_status\<close>: up to \<open>max_tries\<close> requests, numbered from 1; the result list of
  the first answer that reports completion, or \<open>None\<close> for the empty dictionary
  returned when the tries are used up.
\<close>

fun poll_from :: "api \<Rightarrow> string \<Rightarrow> nat \<Rightarrow> nat \<Rightarrow> (string \<times> string option) list option" where
  "poll_from a task_id attempt 0 = None"
| "poll_from a task_id attempt (Suc n) =
     (case get_status a task_id attempt of
        Status True items \<Rightarrow> Some items
      | _ \<Rightarrow> poll_from a task_id (Suc attempt) n)"

definition poll_task_status :: "api \<Rightarrow> string \<Rightarrow> nat \<Rightarrow> (string \<times> string option) list option" where
  "poll_task_status a task_id max_tries = poll_from a task_id 1 max_tries"

definition generate_single_article_pdf :: "api \<Rightarrow> string \<Rightarrow> string \<Rightarrow> string option" where
  "generate_single_article_pdf a article_id file_name =
     (case post_generate a article_id file_name of
        Post_failed \<Rightarrow> None
      | Post_ok None \<Rightarrow> None
      | Post_ok (Some task_id) \<Rightarrow>
          if task_id = [] then None
          else
            (case poll_task_status a task_id 30 of
               None \<Rightarrow> None
             | Some items \<Rightarrow>
                 (case filter (\<lambda>item. fst item = ''url'') items of
                    [] \<Rightarrow> None
                  | item # rest \<Rightarrow> snd item)))"

text \<open>\<^verbatim>\<open>download_pdf_file\<close>: the file is written when the request succeeds.\<close>

definition download_pdf_file :: "api \<Rightarrow> string \<Rightarrow> string \<Rightarrow> cache_state \<Rightarrow> bool \<times> cache_state" where
  "download_pdf_file a pdf_url output_path s =
     (case get_pdf a pdf_url of
        Some content \<Rightarrow> (True, s\<lparr>disk := (disk s)(output_path \<mapsto> content)\<rparr>)
      | None \<Rightarrow> (False, s))"

text \<open>The attempt for a slug, from \<^verbatim>\<open>=== Attempting\<close> to the save of the tracker.\<close>

definition attempt :: "api \<Rightarrow> string \<Rightarrow> string \<Rightarrow> cache_state \<Rightarrow> cache_state" where
  "attempt a slug art_id s =
     (let s1 = tell (Attempting slug art_id) s;
          s2 = (case generate_single_article_pdf a art_id slug of
                  None \<Rightarrow> tell (Fail_no_url slug) s1
                | Some pdf_url \<Rightarrow>
                    if pdf_url = [] then tell (Fail_no_url slug) s1
                    else
                      (case download_pdf_file a pdf_url (slug @ ''.pdf'') s1 of
                         (True, s') \<Rightarrow>
                           tell (Success slug (slug @ ''.pdf''))
                             (s'\<lparr>pdf_tracker := (pdf_tracker s')(art_id \<mapsto> slug @ ''.pdf'')\<rparr>)
                       | (False, s') \<Rightarrow> tell (Fail_download slug) s'))
      in save_pdf_tracker s2)"

text \<open>One iteration of the loop of Step B.\<close>

definition download_step :: "api \<Rightarrow> cache_state \<Rightarrow> string \<Rightarrow> cache_state" where
  "download_step a s slug =
     (if slug |\<in>| failed_slugs s then s
      else
        (case article_id_of s slug of
           None \<Rightarrow> s
         | Some art_id \<Rightarrow>
             (case pdf_tracker s art_id of
                None \<Rightarrow> attempt a slug art_id s
              | Some pdf_file_already \<Rightarrow>
                  if isfile (disk s) pdf_file_already then s
                  else attempt a slug art_id
                         (tell (Warn_missing art_id pdf_file_already)
                            (s\<lparr>pdf_tracker := (pdf_tracker s)(art_id := None)\<rparr>)))))"

subsection \<open>Step C: merging in slug order\<close>

text \<open>The merger's pages so far, the missing slugs and the slugs that failed to append.\<close>

record merge_state =
  merger_pages :: "string list"
  missing_slugs :: "string list"
  merge_failed_slugs :: "string list"
  merge_notices :: "notice list"

definition merge_step :: "cache_state \<Rightarrow> merge_state \<Rightarrow> string \<Rightarrow> merge_state" where
  "merge_step s m slug =
     (if slug |\<in>| failed_slugs s then m\<lparr>missing_slugs := missing_slugs m @ [slug]\<rparr>
      else
        (case article_id_of s slug of
           None \<Rightarrow> m\<lparr>missing_slugs := missing_slugs m @ [slug]\<rparr>
         | Some art_id \<Rightarrow>
             (case pdf_tracker s art_id of
                None \<Rightarrow> m\<lparr>missing_slugs := missing_slugs m @ [slug]\<rparr>
              | Some pdf_path \<Rightarrow>
                  if pdf_path = [] \<or> \<not> isfile (disk s) pdf_path
                  then m\<lparr>missing_slugs := missing_slugs m @ [slug]\<rparr>
                  else
                    (case disk s pdf_path of
                       Some (Pdf pages) \<Rightarrow>
                         m\<lparr>merger_pages := merger_pages m @ pages,
                           merge_notices := merge_notices m @ [Appending slug pdf_path]\<rparr>
                     | _ \<Rightarrow>
                         m\<lparr>merge_failed_slugs := merge_failed_slugs m @ [slug],
                           merge_notices := merge_notices m
                             @ [Appending slug pdf_path, Could_not_append pdf_path]\<rparr>))))"

definition merge_all :: "cache_state \<Rightarrow> string list \<Rightarrow> merge_state" where
  "merge_all s slugs =
     foldl (merge_step s)
       \<lparr>merger_pages = [], missing_slugs = [], merge_failed_slugs = [], merge_notices = []\<rparr>
       slugs"

text \<open>The end of \<^verbatim>\<open>main\<close>: the merged file is written only when the merger has pages.\<close>

definition write_merged :: "cache_state \<Rightarrow> string list \<Rightarrow> cache_state" where
  "write_merged s slugs =
     (let m = merge_all s slugs;
          s1 = s\<lparr>notices := notices s @ merge_notices m\<rparr>;
          s2 = (if merger_pages m \<noteq> []
                then tell (Merged (length (merger_pages m)))
                       (s1\<lparr>disk := (disk s1)(FINAL_MERGED_PDF \<mapsto> Pdf (merger_pages m))\<rparr>)
                else tell Warn_nothing_appended s1)
      in if missing_slugs m \<noteq> [] \<or> merge_failed_slugs m \<noteq> []
         then tell (Info_missing (missing_slugs m) (merge_failed_slugs m)) s2
         else tell Info_all_merged s2)"

text \<open>
  \<^verbatim>\<open>main\<close> over the slugs \<^verbatim>\<open>ARTICLE_SLUGS\<close>, from what the JSON files and the disk
  hold.
\<close>

definition load_caches :: "cache_state \<Rightarrow> cache_state" where
  "load_caches s =
     s\<lparr>slug_cache := slug_cache_json s, pdf_tracker := pdf_tracker_json s,
       failed_slugs := failed_slugs_json s\<rparr>"

definition bind9_main :: "api \<Rightarrow> string list \<Rightarrow> cache_state \<Rightarrow> cache_state" where
  "bind9_main a ARTICLE_SLUGS s =
     write_merged
       (foldl (download_step a) (foldl (resolve_step a) (load_caches s) ARTICLE_SLUGS)
          ARTICLE_SLUGS)
       ARTICLE_SLUGS"
section \<open>Properties of the resumable cache\<close>

text \<open>
  The states of an identifier, read off the caches: a slug is resolved when it is not
  marked failed and the slug cache holds an identifier for it.
\<close>

definition resolved :: "cache_state \<Rightarrow> string \<Rightarrow> string \<Rightarrow> bool" where
  "resolved s slug art_id = (slug |\<notin>| failed_slugs s \<and> article_id_of s slug = Some art_id)"

text \<open>What an answer of the status endpoint reports.\<close>

definition reports_complete :: "status_result \<Rightarrow> bool" where
  "reports_complete r = (case r of Status True items \<Rightarrow> True | _ \<Rightarrow> False)"

lemma tell_simps [simp]:
  "slug_cache (tell n s) = slug_cache s"
  "pdf_tracker (tell n s) = pdf_tracker s"
  "failed_slugs (tell n s) = failed_slugs s"
  "slug_cache_json (tell n s) = slug_cache_json s"
  "pdf_tracker_json (tell n s) = pdf_tracker_json s"
  "failed_slugs_json (tell n s) = failed_slugs_json s"
  "disk (tell n s) = disk s"
  "notices (tell n s) = notices s @ [n]"
  by (simp_all add: tell_def)

lemma article_id_of_cong:
  "slug_cache s' = slug_cache s \<Longrightarrow> article_id_of s' slug = article_id_of s slug"
  by (simp add: article_id_of_def)

text \<open>Polling that never sees completion uses up its tries and returns nothing.\<close>

lemma poll_from_exhausted:
  "(\<forall>k. i \<le> k \<and> k < i + n \<longrightarrow> \<not> reports_complete (get_status a task_id k))
   \<Longrightarrow> poll_from a task_id i n = None"
proof (induction n arbitrary: i)
  case 0
  show ?case by simp
next
  case (Suc n)
  have "\<not> reports_complete (get_status a task_id i)"
    using Suc.prems by simp
  moreover have "poll_from a task_id (Suc i) n = None"
    using Suc.prems by (intro Suc.IH) simp
  ultimately show ?case
    by (simp add: reports_complete_def split: status_result.splits bool.splits)
qed

lemma poll_task_status_exhausted:
  "(\<forall>k. 1 \<le> k \<and> k \<le> max_tries \<longrightarrow> \<not> reports_complete (get_status a task_id k))
   \<Longrightarrow> poll_task_status a task_id max_tries = None"
  unfolding poll_task_status_def by (rule poll_from_exhausted) simp

text \<open>What the attempt leaves in the caches.\<close>

lemma attempt_failed_slugs [simp]: "failed_slugs (attempt a slug art_id s) = failed_slugs s"
  by (simp add: attempt_def Let_def save_pdf_tracker_def download_pdf_file_def
      split: option.splits)

lemma attempt_slug_cache [simp]: "slug_cache (attempt a slug art_id s) = slug_cache s"
  by (simp add: attempt_def Let_def save_pdf_tracker_def download_pdf_file_def
      split: option.splits)

lemma attempt_json [simp]:
  "slug_cache_json (attempt a slug art_id s) = slug_cache_json s"
  "failed_slugs_json (attempt a slug art_id s) = failed_slugs_json s"
  by (simp_all add: attempt_def Let_def save_pdf_tracker_def download_pdf_file_def
      split: option.splits)

lemma attempt_saves: "pdf_tracker_json (attempt a slug art_id s) = pdf_tracker (attempt a slug art_id s)"
  by (simp add: attempt_def Let_def save_pdf_tracker_def)

lemma attempt_notices:
  "\<exists>ns. notices (attempt a slug art_id s) = notices s @ Attempting slug art_id # ns"
  by (simp add: attempt_def Let_def save_pdf_tracker_def download_pdf_file_def
      split: option.splits)

definition downloadable :: "api \<Rightarrow> string \<Rightarrow> string \<Rightarrow> disk_file option" where
  "downloadable a art_id slug =
     (case generate_single_article_pdf a art_id slug of
        None \<Rightarrow> None
      | Some pdf_url \<Rightarrow> if pdf_url = [] then None else get_pdf a pdf_url)"

lemma attempt_pdf_tracker:
  "pdf_tracker (attempt a slug art_id s) =
     (case downloadable a art_id slug of
        None \<Rightarrow> pdf_tracker s
      | Some content \<Rightarrow> (pdf_tracker s)(art_id \<mapsto> slug @ ''.pdf''))"
  by (simp add: attempt_def Let_def save_pdf_tracker_def download_pdf_file_def downloadable_def
      split: option.splits)

lemma attempt_disk:
  "disk (attempt a slug art_id s) =
     (case downloadable a art_id slug of
        None \<Rightarrow> disk s
      | Some content \<Rightarrow> (disk s)(slug @ ''.pdf'' \<mapsto> content))"
  by (simp add: attempt_def Let_def save_pdf_tracker_def download_pdf_file_def downloadable_def
      split: option.splits)

lemma download_step_attempts:
  assumes "resolved s slug art_id"
    and "pdf_tracker s art_id = None \<or> (\<exists>p. pdf_tracker s art_id = Some p \<and> \<not> isfile (disk s) p)"
  shows "\<exists>s'. download_step a s slug = attempt a slug art_id s'
      \<and> slug_cache s' = slug_cache s \<and> failed_slugs s' = failed_slugs s
      \<and> disk s' = disk s \<and> pdf_tracker s' = (pdf_tracker s)(art_id := None)
      \<and> (\<exists>ns. notices s' = notices s @ ns)"
proof (cases "pdf_tracker s art_id")
  case None
  then have "(pdf_tracker s)(art_id := None) = pdf_tracker s"
    by auto
  with None assms(1) show ?thesis
    by (auto simp add: download_step_def resolved_def intro!: exI [of _ s])
next
  case (Some p)
  with assms(2) have "\<not> isfile (disk s) p" by simp
  with Some assms(1) show ?thesis
    by (auto simp add: download_step_def resolved_def
        intro!: exI [of _ "tell (Warn_missing art_id p) (s\<lparr>pdf_tracker := (pdf_tracker s)(art_id := None)\<rparr>)"])
qed

lemma resolve_step_resolved: "resolved s slug art_id \<Longrightarrow> resolve_step a s slug = s"
  by (simp add: resolve_step_def resolved_def)


text \<open>The caches in memory and their copies on disk agree.\<close>

definition synced :: "cache_state \<Rightarrow> bool" where
  "synced s =
     (slug_cache_json s = slug_cache s \<and> pdf_tracker_json s = pdf_tracker s
      \<and> failed_slugs_json s = failed_slugs s)"

lemma synced_resolve_step: "synced s \<Longrightarrow> synced (resolve_step a s slug)"
  by (simp add: synced_def resolve_step_def Let_def save_slug_cache_def save_failed_slugs_def
      mark_failed_def set_info_def split: goto_result.splits option.splits)

lemma synced_download_step: "synced s \<Longrightarrow> synced (download_step a s slug)"
  by (simp add: synced_def download_step_def attempt_saves split: option.splits)

lemma load_caches_synced: "synced s \<Longrightarrow> load_caches s = s"
  by (simp add: synced_def load_caches_def)

text \<open>A slug cache that holds one resolved slug, whose PDF the tracker records.\<close>

definition one_slug_state :: cache_state where
  "one_slug_state =
     \<lparr>slug_cache = [''aa-01310'' \<mapsto> \<lparr>articleId = Some ''id-1'', lastChecked = Some ''2024'',
                                     lastStatusCode = Some 200\<rparr>],
      pdf_tracker = [''id-1'' \<mapsto> ''aa-01310.pdf''],
      failed_slugs = {||},
      slug_cache_json = [''aa-01310'' \<mapsto> \<lparr>articleId = Some ''id-1'', lastChecked = Some ''2024'',
                                          lastStatusCode = Some 200\<rparr>],
      pdf_tracker_json = [''id-1'' \<mapsto> ''aa-01310.pdf''],
      failed_slugs_json = {||},
      disk = Map.empty,
      notices = []\<rparr>"

text \<open>
  Two platforms: one whose task completes at the third poll with a result URL, and one
  whose task never completes.
\<close>

definition working_api :: api where
  "working_api =
     \<lparr>goto = (\<lambda>slug. Goto_raised),
      findall_article_ids = (\<lambda>html_text. []),
      now = ''2025'',
      post_generate = (\<lambda>article_id file_name. Post_ok (Some ''task-1'')),
      get_status = (\<lambda>task_id k.
        if k < 3 then Status False [] else Status True [(''size'', Some ''1''), (''url'', Some ''https://cdn/a.pdf'')]),
      get_pdf = (\<lambda>pdf_url. Some (Pdf [''page 1'']))\<rparr>"

definition stalling_api :: api where
  "stalling_api = working_api\<lparr>get_status := (\<lambda>task_id k. Status False [])\<rparr>"

text \<open>
  \<^bold>\<open>C6.\<close> When the loop of Step B reaches a slug that is resolved and whose
  identifier the tracker maps to a path at which no file is, the entry is deleted and a
  fresh generation and download is attempted for the slug: the warning and the
  \<^verbatim>\<open>=== Attempting\<close> line are printed, and afterwards the tracker holds the new file
  for the identifier when the platform delivered one and no entry otherwise, in memory
  as on disk. When the file is there, the slug is skipped.
\<close>

theorem missing_file_forces_redownload:
  "(resolved s slug art_id \<and> pdf_tracker s art_id = Some old_path
      \<and> \<not> isfile (disk s) old_path
    \<longrightarrow> download_step a s slug =
          attempt a slug art_id
            (tell (Warn_missing art_id old_path)
               (s\<lparr>pdf_tracker := (pdf_tracker s)(art_id := None)\<rparr>))
        \<and> (\<exists>ns. notices (download_step a s slug) =
              notices s @ [Warn_missing art_id old_path, Attempting slug art_id] @ ns)
        \<and> pdf_tracker (download_step a s slug) art_id =
            (case downloadable a art_id slug of
               None \<Rightarrow> None
             | Some content \<Rightarrow> Some (slug @ ''.pdf''))
        \<and> pdf_tracker_json (download_step a s slug) = pdf_tracker (download_step a s slug)
        \<and> disk (download_step a s slug) =
            (case downloadable a art_id slug of
               None \<Rightarrow> disk s
             | Some content \<Rightarrow> (disk s)(slug @ ''.pdf'' \<mapsto> content)))
   \<and> (resolved s slug art_id \<and> pdf_tracker s art_id = Some old_path
        \<and> isfile (disk s) old_path
      \<longrightarrow> download_step a s slug = s)"
proof (intro conjI impI)
  assume h: "resolved s slug art_id \<and> pdf_tracker s art_id = Some old_path
      \<and> \<not> isfile (disk s) old_path"
  let ?s' = "tell (Warn_missing art_id old_path)
               (s\<lparr>pdf_tracker := (pdf_tracker s)(art_id := None)\<rparr>)"
  from h show step: "download_step a s slug = attempt a slug art_id ?s'"
    by (simp add: download_step_def resolved_def)
  from attempt_notices [of a slug art_id ?s']
  show "\<exists>ns. notices (download_step a s slug) =
              notices s @ [Warn_missing art_id old_path, Attempting slug art_id] @ ns"
    unfolding step by simp
  show "pdf_tracker (download_step a s slug) art_id =
            (case downloadable a art_id slug of
               None \<Rightarrow> None
             | Some content \<Rightarrow> Some (slug @ ''.pdf''))"
    unfolding step by (simp add: attempt_pdf_tracker split: option.splits)
  show "pdf_tracker_json (download_step a s slug) = pdf_tracker (download_step a s slug)"
    unfolding step by (rule attempt_saves)
  show "disk (download_step a s slug) =
            (case downloadable a art_id slug of
               None \<Rightarrow> disk s
             | Some content \<Rightarrow> (disk s)(slug @ ''.pdf'' \<mapsto> content))"
    unfolding step by (simp add: attempt_disk split: option.splits)
next
  assume "resolved s slug art_id \<and> pdf_tracker s art_id = Some old_path
        \<and> isfile (disk s) old_path"
  then show "download_step a s slug = s"
    by (simp add: download_step_def resolved_def)
qed

text \<open>
  The recorded file of the one slug is missing: with a working platform it is downloaded
  again, with a stalling one the entry is gone; and a whole run with the working
  platform warns, attempts, succeeds and merges.
\<close>

theorem missing_file_forces_redownload_witness:
  "pdf_tracker (download_step working_api one_slug_state ''aa-01310'') ''id-1'' = Some ''aa-01310.pdf''
   \<and> disk (download_step working_api one_slug_state ''aa-01310'')
       = [''aa-01310.pdf'' \<mapsto> Pdf [''page 1'']]
   \<and> pdf_tracker (download_step stalling_api one_slug_state ''aa-01310'') ''id-1'' = None
   \<and> disk (download_step stalling_api one_slug_state ''aa-01310'') = Map.empty
   \<and> notices (bind9_main working_api [''aa-01310''] one_slug_state) =
      [Warn_missing ''id-1'' ''aa-01310.pdf'', Attempting ''aa-01310'' ''id-1'',
       Success ''aa-01310'' ''aa-01310.pdf'', Appending ''aa-01310'' ''aa-01310.pdf'',
       Merged 1, Info_all_merged]"
proof -
  have h: "resolved one_slug_state ''aa-01310'' ''id-1''
      \<and> pdf_tracker one_slug_state ''id-1'' = Some ''aa-01310.pdf''
      \<and> \<not> isfile (disk one_slug_state) ''aa-01310.pdf''"
    by (simp add: one_slug_state_def resolved_def article_id_of_def isfile_def)
  have w: "downloadable working_api ''id-1'' ''aa-01310'' = Some (Pdf [''page 1''])"
    by code_simp
  have st: "downloadable stalling_api ''id-1'' ''aa-01310'' = None"
    by code_simp
  have d: "disk one_slug_state = Map.empty"
    by (simp add: one_slug_state_def)
  note ok = missing_file_forces_redownload
      [of one_slug_state "''aa-01310''" "''id-1''" "''aa-01310.pdf''" working_api,
       THEN conjunct1, rule_format, OF h]
  note stall = missing_file_forces_redownload
      [of one_slug_state "''aa-01310''" "''id-1''" "''aa-01310.pdf''" stalling_api,
       THEN conjunct1, rule_format, OF h]
  have 1: "pdf_tracker (download_step working_api one_slug_state ''aa-01310'') ''id-1''
        = Some ''aa-01310.pdf''"
    using ok [THEN conjunct2, THEN conjunct2, THEN conjunct1] w by simp
  have 2: "disk (download_step working_api one_slug_state ''aa-01310'')
        = [''aa-01310.pdf'' \<mapsto> Pdf [''page 1'']]"
    using ok [THEN conjunct2, THEN conjunct2, THEN conjunct2, THEN conjunct2] w d by simp
  have 3: "pdf_tracker (download_step stalling_api one_slug_state ''aa-01310'') ''id-1'' = None"
    using stall [THEN conjunct2, THEN conjunct2, THEN conjunct1] st by simp
  have 4: "disk (download_step stalling_api one_slug_state ''aa-01310'') = Map.empty"
    using stall [THEN conjunct2, THEN conjunct2, THEN conjunct2, THEN conjunct2] st d by simp
  have 5: "notices (bind9_main working_api [''aa-01310''] one_slug_state) =
      [Warn_missing ''id-1'' ''aa-01310.pdf'', Attempting ''aa-01310'' ''id-1'',
       Success ''aa-01310'' ''aa-01310.pdf'', Appending ''aa-01310'' ''aa-01310.pdf'',
       Merged 1, Info_all_merged]"
    by code_simp
  from 1 2 3 4 5 show ?thesis by (intro conjI)
qed


lemma generate_none_when_exhausted:
  assumes "post_generate a art_id slug = Post_ok (Some task_id)"
    and "\<forall>k. 1 \<le> k \<and> k \<le> 30 \<longrightarrow> \<not> reports_complete (get_status a task_id k)"
  shows "generate_single_article_pdf a art_id slug = None"
  using assms(1) poll_task_status_exhausted [OF assms(2)]
  by (simp add: generate_single_article_pdf_def)

lemma generate_none_without_url:
  assumes "post_generate a art_id slug = Post_ok (Some task_id)"
    and "poll_task_status a task_id 30 = Some items"
    and "\<forall>item \<in> set items. fst item = ''url'' \<longrightarrow> snd item = None \<or> snd item = Some []"
  shows "generate_single_article_pdf a art_id slug = None
     \<or> generate_single_article_pdf a art_id slug = Some []"
proof (cases "filter (\<lambda>item. fst item = ''url'') items")
  case Nil
  with assms(1,2) show ?thesis
    by (simp add: generate_single_article_pdf_def)
next
  case (Cons item rest)
  then have "item \<in> set (filter (\<lambda>item. fst item = ''url'') items)"
    by simp
  then have "item \<in> set items" and "fst item = ''url''"
    by simp_all
  with assms(3) have "snd item = None \<or> snd item = Some []"
    by blast
  with Cons assms(1,2) show ?thesis
    by (auto simp add: generate_single_article_pdf_def)
qed

lemma attempt_without_url:
  assumes "generate_single_article_pdf a art_id slug = None
     \<or> generate_single_article_pdf a art_id slug = Some []"
  shows "attempt a slug art_id s =
     save_pdf_tracker (tell (Fail_no_url slug) (tell (Attempting slug art_id) s))"
  using assms by (auto simp add: attempt_def Let_def)

text \<open>
  \<^bold>\<open>C7.\<close> Let the loop of Step B reach a resolved slug that it does not skip, and let
  the generation request give a task. If none of the 30 polls reports completion, or the
  completed status holds no item named \<^verbatim>\<open>url\<close> that carries a URL, then no URL comes
  back, the failed set and the slug cache are unchanged, the tracker has no entry for
  the identifier in memory and on disk, and no file is written: the slug is still
  resolved. The next run starts from this state (the caches on disk agree with those in
  memory), its Step A leaves the slug alone, and its Step B attempts the generation
  again.
\<close>

theorem exhausted_polling_stays_resolved:
  "resolved s slug art_id
   \<and> (pdf_tracker s art_id = None
        \<or> (\<exists>p. pdf_tracker s art_id = Some p \<and> \<not> isfile (disk s) p))
   \<and> post_generate a art_id slug = Post_ok (Some task_id)
   \<and> ((\<forall>k. 1 \<le> k \<and> k \<le> 30 \<longrightarrow> \<not> reports_complete (get_status a task_id k))
        \<or> (\<exists>items. poll_task_status a task_id 30 = Some items
              \<and> (\<forall>item \<in> set items.
                    fst item = ''url'' \<longrightarrow> snd item = None \<or> snd item = Some [])))
   \<longrightarrow> (generate_single_article_pdf a art_id slug = None
        \<or> generate_single_article_pdf a art_id slug = Some [])
     \<and> failed_slugs (download_step a s slug) = failed_slugs s
     \<and> slug_cache (download_step a s slug) = slug_cache s
     \<and> pdf_tracker (download_step a s slug) art_id = None
     \<and> pdf_tracker_json (download_step a s slug) art_id = None
     \<and> disk (download_step a s slug) = disk s
     \<and> resolved (download_step a s slug) slug art_id
     \<and> (\<exists>ns. notices (download_step a s slug) =
            notices s @ ns @ [Attempting slug art_id, Fail_no_url slug])
     \<and> (synced s \<longrightarrow> load_caches (download_step a s slug) = download_step a s slug)
     \<and> (\<forall>a'. resolve_step a' (download_step a s slug) slug = download_step a s slug)
     \<and> (\<forall>a'. \<exists>ns. notices (download_step a' (download_step a s slug) slug) =
            notices (download_step a s slug) @ Attempting slug art_id # ns)"
proof (intro impI)
  assume h: "resolved s slug art_id
   \<and> (pdf_tracker s art_id = None
        \<or> (\<exists>p. pdf_tracker s art_id = Some p \<and> \<not> isfile (disk s) p))
   \<and> post_generate a art_id slug = Post_ok (Some task_id)
   \<and> ((\<forall>k. 1 \<le> k \<and> k \<le> 30 \<longrightarrow> \<not> reports_complete (get_status a task_id k))
        \<or> (\<exists>items. poll_task_status a task_id 30 = Some items
              \<and> (\<forall>item \<in> set items.
                    fst item = ''url'' \<longrightarrow> snd item = None \<or> snd item = Some [])))"
  then have r: "resolved s slug art_id" by simp
  from h have gen: "generate_single_article_pdf a art_id slug = None
      \<or> generate_single_article_pdf a art_id slug = Some []"
    using generate_none_when_exhausted [of a art_id slug task_id]
      generate_none_without_url [of a art_id slug task_id] by blast
  from h obtain s' where step: "download_step a s slug = attempt a slug art_id s'"
    and s': "slug_cache s' = slug_cache s" "failed_slugs s' = failed_slugs s"
      "disk s' = disk s" "pdf_tracker s' = (pdf_tracker s)(art_id := None)"
    and ns: "\<exists>ns. notices s' = notices s @ ns"
    using download_step_attempts [of s slug art_id a] by blast
  let ?t = "download_step a s slug"
  have t: "?t = save_pdf_tracker (tell (Fail_no_url slug) (tell (Attempting slug art_id) s'))"
    unfolding step using gen by (rule attempt_without_url)
  have fs: "failed_slugs ?t = failed_slugs s"
    by (simp add: t save_pdf_tracker_def s')
  have sc: "slug_cache ?t = slug_cache s"
    by (simp add: t save_pdf_tracker_def s')
  have pt: "pdf_tracker ?t art_id = None"
    by (simp add: t save_pdf_tracker_def s')
  have pj: "pdf_tracker_json ?t art_id = None"
    by (simp add: t save_pdf_tracker_def s')
  have dk: "disk ?t = disk s"
    by (simp add: t save_pdf_tracker_def s')
  have res: "resolved ?t slug art_id"
    using r fs article_id_of_cong [OF sc] by (simp add: resolved_def)
  from ns have nt: "\<exists>ns. notices ?t = notices s @ ns @ [Attempting slug art_id, Fail_no_url slug]"
    by (auto simp add: t save_pdf_tracker_def)
  have sy: "synced s \<longrightarrow> load_caches ?t = ?t"
    using synced_download_step load_caches_synced by blast
  have again_a: "\<forall>a'. resolve_step a' ?t slug = ?t"
    using res by (simp add: resolve_step_resolved)
  have again_b: "\<forall>a'. \<exists>ns. notices (download_step a' ?t slug) =
            notices ?t @ Attempting slug art_id # ns"
  proof
    fix a'
    from res pt obtain t' where "download_step a' ?t slug = attempt a' slug art_id t'"
      and "\<exists>ns. notices t' = notices ?t @ ns" and "pdf_tracker t' = (pdf_tracker ?t)(art_id := None)"
      using download_step_attempts [of ?t slug art_id a'] by blast
    moreover from res pt have "download_step a' ?t slug = attempt a' slug art_id ?t"
      by (simp add: download_step_def resolved_def)
    ultimately show "\<exists>ns. notices (download_step a' ?t slug) =
            notices ?t @ Attempting slug art_id # ns"
      using attempt_notices [of a' slug art_id ?t] by simp
  qed
  from gen fs sc pt pj dk res nt sy again_a again_b
  show "(generate_single_article_pdf a art_id slug = None
        \<or> generate_single_article_pdf a art_id slug = Some [])
     \<and> failed_slugs (download_step a s slug) = failed_slugs s
     \<and> slug_cache (download_step a s slug) = slug_cache s
     \<and> pdf_tracker (download_step a s slug) art_id = None
     \<and> pdf_tracker_json (download_step a s slug) art_id = None
     \<and> disk (download_step a s slug) = disk s
     \<and> resolved (download_step a s slug) slug art_id
     \<and> (\<exists>ns. notices (download_step a s slug) =
            notices s @ ns @ [Attempting slug art_id, Fail_no_url slug])
     \<and> (synced s \<longrightarrow> load_caches (download_step a s slug) = download_step a s slug)
     \<and> (\<forall>a'. resolve_step a' (download_step a s slug) slug = download_step a s slug)
     \<and> (\<forall>a'. \<exists>ns. notices (download_step a' (download_step a s slug) slug) =
            notices (download_step a s slug) @ Attempting slug art_id # ns)"
    by (intro conjI)
qed


text \<open>A platform whose task completes with a result that holds no URL.\<close>

definition no_url_api :: api where
  "no_url_api =
     working_api\<lparr>get_status := (\<lambda>task_id k. Status True [(''size'', Some ''1'')])\<rparr>"

text \<open>Both cases on the one slug: the slug stays resolved, without tracker entry.\<close>

theorem exhausted_polling_stays_resolved_witness:
  "pdf_tracker (download_step stalling_api one_slug_state ''aa-01310'') ''id-1'' = None
   \<and> failed_slugs (download_step stalling_api one_slug_state ''aa-01310'') = {||}
   \<and> resolved (download_step stalling_api one_slug_state ''aa-01310'') ''aa-01310'' ''id-1''
   \<and> pdf_tracker (download_step no_url_api one_slug_state ''aa-01310'') ''id-1'' = None
   \<and> failed_slugs (download_step no_url_api one_slug_state ''aa-01310'') = {||}
   \<and> resolved (download_step no_url_api one_slug_state ''aa-01310'') ''aa-01310'' ''id-1''"
proof -
  have r: "resolved one_slug_state ''aa-01310'' ''id-1''"
    by (simp add: one_slug_state_def resolved_def article_id_of_def)
  have m: "pdf_tracker one_slug_state ''id-1'' = None
        \<or> (\<exists>p. pdf_tracker one_slug_state ''id-1'' = Some p \<and> \<not> isfile (disk one_slug_state) p)"
    by (simp add: one_slug_state_def isfile_def)
  have f: "failed_slugs one_slug_state = {||}"
    by (simp add: one_slug_state_def)
  have p1: "post_generate stalling_api ''id-1'' ''aa-01310'' = Post_ok (Some ''task-1'')"
    by (simp add: stalling_api_def working_api_def)
  have e1: "\<forall>k. 1 \<le> k \<and> k \<le> 30 \<longrightarrow> \<not> reports_complete (get_status stalling_api ''task-1'' k)"
    by (simp add: stalling_api_def reports_complete_def)
  have p2: "post_generate no_url_api ''id-1'' ''aa-01310'' = Post_ok (Some ''task-1'')"
    by (simp add: no_url_api_def working_api_def)
  have e2: "\<exists>items. poll_task_status no_url_api ''task-1'' 30 = Some items
      \<and> (\<forall>item \<in> set items. fst item = ''url'' \<longrightarrow> snd item = None \<or> snd item = Some [])"
  proof -
    have "poll_task_status no_url_api ''task-1'' 30 = Some [(''size'', Some ''1'')]"
      by code_simp
    then show ?thesis by simp
  qed
  note stall = exhausted_polling_stays_resolved
      [of one_slug_state "''aa-01310''" "''id-1''" stalling_api "''task-1''", rule_format]
  note nourl = exhausted_polling_stays_resolved
      [of one_slug_state "''aa-01310''" "''id-1''" no_url_api "''task-1''", rule_format]
  have 1: "failed_slugs (download_step stalling_api one_slug_state ''aa-01310'') = {||}
      \<and> pdf_tracker (download_step stalling_api one_slug_state ''aa-01310'') ''id-1'' = None
      \<and> resolved (download_step stalling_api one_slug_state ''aa-01310'') ''aa-01310'' ''id-1''"
    using stall r m p1 e1 f by metis
  have 2: "failed_slugs (download_step no_url_api one_slug_state ''aa-01310'') = {||}
      \<and> pdf_tracker (download_step no_url_api one_slug_state ''aa-01310'') ''id-1'' = None
      \<and> resolved (download_step no_url_api one_slug_state ''aa-01310'') ''aa-01310'' ''id-1''"
    using nourl r m p2 e2 f by metis
  from 1 2 show ?thesis by simp
qed


text \<open>The pages Step C appends for a slug.\<close>

definition appended :: "cache_state \<Rightarrow> string \<Rightarrow> string list" where
  "appended s slug =
     (if slug |\<in>| failed_slugs s then []
      else
        (case article_id_of s slug of
           None \<Rightarrow> []
         | Some art_id \<Rightarrow>
             (case pdf_tracker s art_id of
                None \<Rightarrow> []
              | Some pdf_path \<Rightarrow>
                  (case disk s pdf_path of
                     Some (Pdf pages) \<Rightarrow> if pdf_path = [] then [] else pages
                   | _ \<Rightarrow> []))))"

lemma merger_pages_merge_step:
  "merger_pages (merge_step s m slug) = merger_pages m @ appended s slug"
  by (simp add: merge_step_def appended_def isfile_def
      split: option.splits disk_file.splits)

lemma merger_pages_foldl:
  "merger_pages (foldl (merge_step s) m slugs) = merger_pages m @ concat (map (appended s) slugs)"
  by (induction slugs arbitrary: m) (simp_all add: merger_pages_merge_step)

lemma merger_pages_merge_all:
  "merger_pages (merge_all s slugs) = concat (map (appended s) slugs)"
  by (simp add: merge_all_def merger_pages_foldl)

text \<open>
  Step C writes the merged file exactly when something was appended; when nothing was,
  the disk is left as it is and the outcome is reported by the line
  \<^verbatim>\<open>[WARN] No PDFs were appended\<close>, after which the summary follows as in every run.
\<close>

lemma write_merged_nothing_appended:
  assumes "\<forall>slug \<in> set slugs. appended s slug = []"
  shows "disk (write_merged s slugs) = disk s"
    and "Warn_nothing_appended \<in> set (notices (write_merged s slugs))"
proof -
  have "merger_pages (merge_all s slugs) = []"
    using assms by (simp add: merger_pages_merge_all)
  then show "disk (write_merged s slugs) = disk s"
    and "Warn_nothing_appended \<in> set (notices (write_merged s slugs))"
    by (simp_all add: write_merged_def Let_def)
qed

lemma write_merged_appended:
  assumes "\<exists>slug \<in> set slugs. appended s slug \<noteq> []"
  shows "disk (write_merged s slugs) FINAL_MERGED_PDF
      = Some (Pdf (concat (map (appended s) slugs)))"
proof -
  have "merger_pages (merge_all s slugs) \<noteq> []"
    using assms by (simp add: merger_pages_merge_all)
  then show ?thesis
    by (simp add: write_merged_def Let_def merger_pages_merge_all)
qed

section \<open>The merger when nothing can be appended\<close>

text \<open>
  \<^bold>\<open>C5.\<close> The two mergers differ. Step C of the resumable-cache script writes no
  merged file when nothing was appended and reports it (\<open>write_merged_nothing_appended\<close>
  above). \<^verbatim>\<open>merge_pdfs\<close> of the crawler has no such test: when every input of a
  manifest fails to append, each failure is reported and the output file is written all
  the same, with no page in it.
\<close>

theorem merge_pdfs_writes_empty_output:
  "(\<forall>p \<in> set pdf_list. \<not> appendable (files s) p) \<longrightarrow>
     files (merge_pdfs pdf_list output_pdf s) output_pdf = Some (Pdf [])
     \<and> printed (merge_pdfs pdf_list output_pdf s) = printed s @ map Merge_error pdf_list"
proof
  assume a: "\<forall>p \<in> set pdf_list. \<not> appendable (files s) p"
  then have none: "\<forall>p \<in> set pdf_list. pages_at (files s) p = []"
    by (auto simp add: appendable_def pages_at_def split: option.splits disk_file.splits)
  from a have all: "filter (\<lambda>p. \<not> appendable (files s) p) pdf_list = pdf_list"
    by simp
  from none have "concat (map (pages_at (files s)) pdf_list) = []"
    by simp
  with all show "files (merge_pdfs pdf_list output_pdf s) output_pdf = Some (Pdf [])
     \<and> printed (merge_pdfs pdf_list output_pdf s) = printed s @ map Merge_error pdf_list"
    by (simp add: files_merge_pdfs printed_merge_pdfs)
qed

text \<open>
  The manifest of one page whose rendering failed, as \<^verbatim>\<open>main\<close> hands it to the merger:
  the merged file is written, empty; and so it is at the end of the run in which no
  page renders.
\<close>

theorem merge_pdfs_writes_empty_output_witness:
  "files (merge_pdfs [''apache_httpd_docs_pdf/docs-current.pdf'']
            ''apache_httpd_docs_pdf/Apache_HTTP_Server_24_Docs_Merged.pdf''
            (initial apache_config Map.empty))
     ''apache_httpd_docs_pdf/Apache_HTTP_Server_24_Docs_Merged.pdf'' = Some (Pdf [])
   \<and> files (main apache_config unrenderable_world Map.empty)
       ''apache_httpd_docs_pdf/Apache_HTTP_Server_24_Docs_Merged.pdf'' = Some (Pdf [])
   \<and> last (printed (main apache_config unrenderable_world Map.empty)) = Merge_complete"
proof (intro conjI)
  have "\<forall>p \<in> set [''apache_httpd_docs_pdf/docs-current.pdf''].
      \<not> appendable (files (initial apache_config Map.empty)) p"
    by (simp add: initial_def appendable_def)
  then show "files (merge_pdfs [''apache_httpd_docs_pdf/docs-current.pdf'']
            ''apache_httpd_docs_pdf/Apache_HTTP_Server_24_Docs_Merged.pdf''
            (initial apache_config Map.empty))
     ''apache_httpd_docs_pdf/Apache_HTTP_Server_24_Docs_Merged.pdf'' = Some (Pdf [])"
    using merge_pdfs_writes_empty_output
      [of "[''apache_httpd_docs_pdf/docs-current.pdf'']" "initial apache_config Map.empty"
          "''apache_httpd_docs_pdf/Apache_HTTP_Server_24_Docs_Merged.pdf''"]
    by blast
next
  show "files (main apache_config unrenderable_world Map.empty)
       ''apache_httpd_docs_pdf/Apache_HTTP_Server_24_Docs_Merged.pdf'' = Some (Pdf [])"
    by code_simp
next
  show "last (printed (main apache_config unrenderable_world Map.empty)) = Merge_complete"
    by code_simp
qed

end
